theory Spec2Isabelle
  imports Complex_Main
begin

section \<open>JavaScript strings and numbers\<close>

text \<open>
  A JavaScript string is modelled as a \<^typ>\<open>string\<close>: one \<^typ>\<open>char\<close> per code unit
  (code units below 256), so that \<^const>\<open>length\<close> is the \<^verbatim>\<open>.length\<close> of the source.
\<close>

fun startsWith :: "string \<Rightarrow> string \<Rightarrow> bool" where
  "startsWith s [] = True"
| "startsWith [] (p # ps) = False"
| "startsWith (c # cs) (p # ps) = (c = p \<and> startsWith cs ps)"

definition endsWith :: "string \<Rightarrow> string \<Rightarrow> bool" where
  "endsWith s p = startsWith (rev s) (rev p)"

text \<open>\<^verbatim>\<open>s.slice(0, -n)\<close>: the string without its last \<open>n\<close> code units.\<close>

definition sliceEnd :: "string \<Rightarrow> nat \<Rightarrow> string" where
  "sliceEnd s n = take (length s - n) s"

text \<open>\<^verbatim>\<open>s.replace(pat, '')\<close> with a string pattern: the first occurrence is removed.\<close>

fun replaceFirst :: "string \<Rightarrow> string \<Rightarrow> string" where
  "replaceFirst pat [] = []"
| "replaceFirst pat (c # cs) =
     (if startsWith (c # cs) pat then drop (length pat) (c # cs)
      else c # replaceFirst pat cs)"

text \<open>White space removed by \<^verbatim>\<open>String.prototype.trim\<close>, among the code units below 256:
  tab, line feed, vertical tab, form feed, carriage return, space, no-break space.\<close>

definition isWhiteSpace :: "char \<Rightarrow> bool" where
  "isWhiteSpace c = (c \<in> set [CHR 0x09, CHR 0x0A, CHR 0x0B, CHR 0x0C, CHR 0x0D, CHR 0x20, CHR 0xA0])"

definition trim :: "string \<Rightarrow> string" where
  "trim s = rev (dropWhile isWhiteSpace (rev (dropWhile isWhiteSpace s)))"

definition digitChar :: "nat \<Rightarrow> char" where
  "digitChar n = ''0123456789'' ! (n mod 10)"

function showNat :: "nat \<Rightarrow> string" where
  "showNat n = (if n < 10 then [digitChar n] else showNat (n div 10) @ [digitChar (n mod 10)])"
  by pat_completeness auto
termination
  by (relation "measure id") auto

declare showNat.simps [simp del]

definition showInt :: "int \<Rightarrow> string" where
  "showInt i = (if i < 0 then CHR ''-'' # showNat (nat (- i)) else showNat (nat i))"

fun joinWith :: "string \<Rightarrow> string list \<Rightarrow> string" where
  "joinWith sep [] = []"
| "joinWith sep [x] = x"
| "joinWith sep (x # y # ys) = x @ sep @ joinWith sep (y # ys)"

section \<open>Data model (types.ts)\<close>

text \<open>A heading's level is the result of \<^verbatim>\<open>parseInt\<close>: \<open>None\<close> stands for \<^verbatim>\<open>NaN\<close>.\<close>

record Heading =
  h_level :: "int option"
  h_text :: string

text \<open>Optional fields of the interface are options: \<open>None\<close> is \<^verbatim>\<open>undefined\<close>.\<close>

record PageData =
  path :: string
  timestamp :: string
  title :: string
  h1 :: string
  html :: "string option"
  receiverUsername :: "string option"
  contentLength :: "int option"
  extractedAt :: "int option"
  statusCode :: "int option"
  headings :: "Heading list option"
  metaDescription :: "string option"

record CachedPageData =
  entry_data :: PageData
  entry_timestamp :: int
  entry_size :: int

datatype AutoApiErrorType = INVALID_CONFIG | FETCH_ERROR | PARSE_ERROR | CACHE_ERROR | TIMEOUT_ERROR

text \<open>The class \<^verbatim>\<open>AutoApiError\<close>: message, type, the optional status code and the
  name of the optional original error.\<close>

datatype AutoApiError = AutoApiError string AutoApiErrorType "int option" "string option"

definition DEFAULT_API_PREFIX :: string where "DEFAULT_API_PREFIX = ''/api''"
definition DEFAULT_CACHE_DURATION :: int where "DEFAULT_CACHE_DURATION = 3600"
definition DEFAULT_REQUEST_TIMEOUT :: int where "DEFAULT_REQUEST_TIMEOUT = 5000"
definition DEFAULT_MAX_CACHE_SIZE :: int where "DEFAULT_MAX_CACHE_SIZE = 1048576"
definition MAX_CACHE_DURATION :: int where "MAX_CACHE_DURATION = 86400"
definition MIN_CACHE_DURATION :: int where "MIN_CACHE_DURATION = 60"

section \<open>JSON.stringify of a PageData\<close>

definition hexDigit :: "nat \<Rightarrow> char" where
  "hexDigit n = ''0123456789abcdef'' ! (n mod 16)"

text \<open>The escapes of \<^verbatim>\<open>QuoteJSONString\<close>.\<close>

definition jsonEscape :: "char \<Rightarrow> string" where
  "jsonEscape c =
     (if c = CHR 0x08 then [CHR 0x5C, CHR ''b'']
      else if c = CHR 0x09 then [CHR 0x5C, CHR ''t'']
      else if c = CHR 0x0A then [CHR 0x5C, CHR ''n'']
      else if c = CHR 0x0C then [CHR 0x5C, CHR ''f'']
      else if c = CHR 0x0D then [CHR 0x5C, CHR ''r'']
      else if c = CHR 0x22 then [CHR 0x5C, CHR 0x22]
      else if c = CHR 0x5C then [CHR 0x5C, CHR 0x5C]
      else if of_char c < (32::nat) then
        [CHR 0x5C, CHR ''u'', CHR ''0'', CHR ''0'', hexDigit (of_char c div 16), hexDigit (of_char c)]
      else [c])"

definition jsonString :: "string \<Rightarrow> string" where
  "jsonString s = [CHR 0x22] @ concat (map jsonEscape s) @ [CHR 0x22]"

definition jsonNumber :: "int option \<Rightarrow> string" where
  "jsonNumber n = (case n of None \<Rightarrow> ''null'' | Some i \<Rightarrow> showInt i)"

definition jsonHeading :: "Heading \<Rightarrow> string" where
  "jsonHeading h =
     ''{'' @ jsonString ''level'' @ '':'' @ jsonNumber (h_level h) @ '','' @
     jsonString ''text'' @ '':'' @ jsonString (h_text h) @ ''}''"

definition jsonArray :: "string list \<Rightarrow> string" where
  "jsonArray xs = ''['' @ joinWith '','' xs @ '']''"

text \<open>A property whose value is \<^verbatim>\<open>undefined\<close> is left out of the serialised object.\<close>

definition jsonMember :: "string \<Rightarrow> string option \<Rightarrow> string list" where
  "jsonMember k v = (case v of None \<Rightarrow> [] | Some j \<Rightarrow> [jsonString k @ '':'' @ j])"

definition JSON_stringify :: "PageData \<Rightarrow> string" where
  "JSON_stringify d =
     ''{'' @ joinWith '',''
       (jsonMember ''path'' (Some (jsonString (path d))) @
        jsonMember ''timestamp'' (Some (jsonString (timestamp d))) @
        jsonMember ''title'' (Some (jsonString (title d))) @
        jsonMember ''h1'' (Some (jsonString (h1 d))) @
        jsonMember ''html'' (map_option jsonString (html d)) @
        jsonMember ''receiverUsername'' (map_option jsonString (receiverUsername d)) @
        jsonMember ''contentLength'' (map_option (\<lambda>n. jsonNumber (Some n)) (contentLength d)) @
        jsonMember ''extractedAt'' (map_option (\<lambda>n. jsonNumber (Some n)) (extractedAt d)) @
        jsonMember ''statusCode'' (map_option (\<lambda>n. jsonNumber (Some n)) (statusCode d)) @
        jsonMember ''headings'' (map_option (\<lambda>hs. jsonArray (map jsonHeading hs)) (headings d)) @
        jsonMember ''metaDescription'' (map_option jsonString (metaDescription d)))
     @ ''}''"

section \<open>The cache (middleware.ts)\<close>

text \<open>
  The module-level \<^verbatim>\<open>Map\<close> is an association list in insertion order with one pair
  per key, together with the running total \<^verbatim>\<open>totalCacheSize\<close>.
\<close>

type_synonym jsMap = "(string \<times> CachedPageData) list"

record CacheState =
  cache :: jsMap
  totalCacheSize :: int

definition emptyCache :: CacheState where
  "emptyCache = \<lparr>cache = [], totalCacheSize = 0\<rparr>"

definition mapGet :: "jsMap \<Rightarrow> string \<Rightarrow> CachedPageData option" where
  "mapGet m k = map_of m k"

text \<open>\<^verbatim>\<open>Map.prototype.set\<close>: an existing key keeps its position, a new key goes last.\<close>

fun mapSet :: "string \<Rightarrow> CachedPageData \<Rightarrow> jsMap \<Rightarrow> jsMap" where
  "mapSet k v [] = [(k, v)]"
| "mapSet k v ((k', v') # m) = (if k' = k then (k, v) # m else (k', v') # mapSet k v m)"

definition mapDelete :: "string \<Rightarrow> jsMap \<Rightarrow> jsMap" where
  "mapDelete k m = filter (\<lambda>kv. fst kv \<noteq> k) m"

text \<open>\<^verbatim>\<open>cache.keys().next().value\<close>: the oldest key, \<^verbatim>\<open>undefined\<close> on an empty map.\<close>

definition firstKey :: "jsMap \<Rightarrow> string option" where
  "firstKey m = (case m of [] \<Rightarrow> None | kv # _ \<Rightarrow> Some (fst kv))"

text \<open>\<^verbatim>\<open>(data.html?.length || 0) + JSON.stringify(data).length\<close>\<close>

definition dataSizeOf :: "PageData \<Rightarrow> int" where
  "dataSizeOf d =
     (case html d of None \<Rightarrow> 0 | Some h \<Rightarrow> int (length h)) + int (length (JSON_stringify d))"

definition shouldCacheData :: "PageData \<Rightarrow> int \<Rightarrow> bool" where
  "shouldCacheData d maxCacheSize = (dataSizeOf d \<le> maxCacheSize)"

text \<open>
  \<^verbatim>\<open>getCachedData\<close>; \<open>now\<close> is the value of \<^verbatim>\<open>Date.now()\<close>. The result is the cached
  data (\<open>None\<close> for \<^verbatim>\<open>null\<close>) and the state after the lookup.
\<close>

definition getCachedData :: "string \<Rightarrow> int \<Rightarrow> int \<Rightarrow> CacheState \<Rightarrow> PageData option \<times> CacheState" where
  "getCachedData pagePath cacheDuration now s =
     (case mapGet (cache s) pagePath of
        None \<Rightarrow> (None, s)
      | Some cachedEntry \<Rightarrow>
          (let isExpired = (now - entry_timestamp cachedEntry > cacheDuration * 1000) in
           if isExpired then
             (None, s\<lparr>cache := mapDelete pagePath (cache s),
                      totalCacheSize := totalCacheSize s - entry_size cachedEntry\<rparr>)
           else (Some (entry_data cachedEntry), s)))"

text \<open>
  The eviction loop of \<^verbatim>\<open>cachePageData\<close>. The oldest key always has an entry, so the
  two \<open>None\<close> branches are never taken.
\<close>

function evictOld :: "int \<Rightarrow> int \<Rightarrow> CacheState \<Rightarrow> CacheState" where
  "evictOld dataSize maxCacheSize s =
     (if totalCacheSize s + dataSize > maxCacheSize \<and> length (cache s) > 0 then
        (case firstKey (cache s) of
           None \<Rightarrow> s
         | Some oldestKey \<Rightarrow>
             (case mapGet (cache s) oldestKey of
                None \<Rightarrow> s
              | Some oldEntry \<Rightarrow>
                  evictOld dataSize maxCacheSize
                    (s\<lparr>totalCacheSize := totalCacheSize s - entry_size oldEntry,
                       cache := mapDelete oldestKey (cache s)\<rparr>)))
      else s)"
  by pat_completeness auto
termination
proof (relation "measure (\<lambda>(dataSize, maxCacheSize, s). length (cache s))")
  show "wf (measure (\<lambda>(dataSize, maxCacheSize, s). length (cache s)))" by simp
next
  fix dataSize maxCacheSize :: int and s :: CacheState and oldestKey oldEntry
  assume "firstKey (cache s) = Some oldestKey"
  then obtain v rest where c: "cache s = (oldestKey, v) # rest"
    by (cases "cache s") (auto simp: firstKey_def)
  have "length (filter (\<lambda>kv. fst kv \<noteq> oldestKey) rest) \<le> length rest"
    by (rule length_filter_le)
  then have "length (mapDelete oldestKey (cache s)) < length (cache s)"
    unfolding c mapDelete_def by (simp add: less_Suc_eq_le)
  then show "((dataSize, maxCacheSize,
               s\<lparr>totalCacheSize := totalCacheSize s - entry_size oldEntry,
                 cache := mapDelete oldestKey (cache s)\<rparr>),
              (dataSize, maxCacheSize, s))
             \<in> measure (\<lambda>(dataSize, maxCacheSize, s). length (cache s))"
    by simp
qed

declare evictOld.simps [simp del]

text \<open>\<^verbatim>\<open>cachePageData\<close>; \<open>now\<close> is the value of \<^verbatim>\<open>Date.now()\<close>.\<close>

definition cachePageData :: "string \<Rightarrow> PageData \<Rightarrow> int \<Rightarrow> int \<Rightarrow> CacheState \<Rightarrow> CacheState" where
  "cachePageData pagePath d maxCacheSize now s =
     (let dataSize = dataSizeOf d;
          s1 = evictOld dataSize maxCacheSize s;
          cachedEntry = \<lparr>entry_data = d, entry_timestamp = now, entry_size = dataSize\<rparr>
      in s1\<lparr>cache := mapSet pagePath cachedEntry (cache s1),
            totalCacheSize := totalCacheSize s1 + dataSize\<rparr>)"

text \<open>
  \<^verbatim>\<open>clearExpiredCache\<close>: the loop over \<^verbatim>\<open>cache.entries()\<close>, deleting while iterating.
  The result is the number of entries removed and the state after the sweep.
\<close>

fun sweepLoop :: "int \<Rightarrow> int \<Rightarrow> jsMap \<Rightarrow> int \<times> CacheState \<Rightarrow> int \<times> CacheState" where
  "sweepLoop cacheDuration now [] acc = acc"
| "sweepLoop cacheDuration now ((key, entry) # todo) (removedCount, s) =
     (if now - entry_timestamp entry > cacheDuration * 1000 then
        sweepLoop cacheDuration now todo
          (removedCount + 1,
           s\<lparr>cache := mapDelete key (cache s),
             totalCacheSize := totalCacheSize s - entry_size entry\<rparr>)
      else sweepLoop cacheDuration now todo (removedCount, s))"

definition clearExpiredCache :: "int \<Rightarrow> int \<Rightarrow> CacheState \<Rightarrow> int \<times> CacheState" where
  "clearExpiredCache cacheDuration now s = sweepLoop cacheDuration now (cache s) (0, s)"


section \<open>Path classification (middleware.ts)\<close>

definition extractPagePath :: "string \<Rightarrow> string \<Rightarrow> string" where
  "extractPagePath reqPath pfx =
     (let pagePath0 = replaceFirst pfx reqPath;
          pagePath = (if \<not> startsWith pagePath0 ''/'' then ''/'' @ pagePath0 else pagePath0)
      in if pagePath = ''/'' then ''/'' else pagePath)"

text \<open>The character class of the regular expression in \<^verbatim>\<open>isValidPath\<close>.\<close>

definition dangerousChars :: "char list" where
  "dangerousChars = [CHR ''<'', CHR ''>'', CHR '':'', CHR 0x22, CHR ''|'', CHR ''?'', CHR ''*'']"

definition isValidPath :: "string \<Rightarrow> bool" where
  "isValidPath p =
     (startsWith p ''/'' \<and> \<not> list_ex (\<lambda>c. c \<in> set dangerousChars) p \<and> length p \<le> 2000)"

definition matchesExclude :: "string \<Rightarrow> string \<Rightarrow> bool" where
  "matchesExclude p excludePath =
     (if endsWith excludePath ''/*'' then
        (let prefix = sliceEnd excludePath 2 in startsWith p prefix)
      else p = excludePath)"

definition isPathExcluded :: "string \<Rightarrow> string list \<Rightarrow> bool" where
  "isPathExcluded p patterns = list_ex (matchesExclude p) patterns"

section \<open>Configuration (middleware.ts, index.ts)\<close>

text \<open>
  Values the configuration can hold at run time. A number is a finite rational, \<^verbatim>\<open>NaN\<close>
  or an infinity; the code only asks whether it is an integer and compares it.
\<close>

datatype jsnum = Finite rat | NaN | PosInfinity | NegInfinity

datatype jsval =
    Undefined | Null | Bool bool | Num jsnum | Str string
  | Arr "jsval list" | Obj "(string \<times> jsval) list"

text \<open>\<^verbatim>\<open>Number.isInteger\<close>, which does not coerce its argument.\<close>

fun numIsInteger :: "jsnum \<Rightarrow> bool" where
  "numIsInteger (Finite q) = (of_int \<lfloor>q\<rfloor> = q)"
| "numIsInteger _ = False"

fun isInteger :: "jsval \<Rightarrow> bool" where
  "isInteger (Num n) = numIsInteger n"
| "isInteger _ = False"

text \<open>\<^verbatim>\<open>x < c\<close> and \<^verbatim>\<open>x > c\<close> for a number \<open>x\<close> and an integer constant \<open>c\<close>.\<close>

fun numLess :: "jsnum \<Rightarrow> int \<Rightarrow> bool" where
  "numLess (Finite q) c = (q < of_int c)"
| "numLess NegInfinity c = True"
| "numLess _ c = False"

fun numGreater :: "jsnum \<Rightarrow> int \<Rightarrow> bool" where
  "numGreater (Finite q) c = (q > of_int c)"
| "numGreater PosInfinity c = True"
| "numGreater _ c = False"

fun numToInt :: "jsnum \<Rightarrow> int" where
  "numToInt (Finite q) = \<lfloor>q\<rfloor>"
| "numToInt _ = 0"

fun isStr :: "jsval \<Rightarrow> bool" where
  "isStr (Str s) = True"
| "isStr _ = False"

fun strOf :: "jsval \<Rightarrow> string" where
  "strOf (Str s) = s"
| "strOf _ = []"

text \<open>\<^verbatim>\<open>typeof v !== 'object' || v === null\<close> is false for objects and arrays only.\<close>

fun isNonNullObject :: "jsval \<Rightarrow> bool" where
  "isNonNullObject (Obj kvs) = True"
| "isNonNullObject (Arr xs) = True"
| "isNonNullObject _ = False"

text \<open>
  The configuration as the caller passes it. The four options that
  \<^verbatim>\<open>validateAndNormalizeConfig\<close> checks at run time hold any value; the others have
  their declared types (\<open>None\<close> is \<^verbatim>\<open>undefined\<close>; sizes and timeouts are integers).
\<close>

record AutoApiConfig =
  raw_enabled :: "bool option"
  raw_apiPrefix :: jsval
  raw_excludePaths :: jsval
  raw_additionalHeaders :: jsval
  raw_enableCache :: "bool option"
  raw_cacheDuration :: jsval
  raw_receiverUsername :: "string option"
  raw_maxCacheSize :: "int option"
  raw_requestTimeout :: "int option"

text \<open>\<^verbatim>\<open>Required<AutoApiConfig>\<close>, the normalised configuration.\<close>

record Config =
  enabled :: bool
  apiPrefix :: string
  excludePaths :: "string list"
  additionalHeaders :: jsval
  enableCache :: bool
  cacheDuration :: int
  cfg_receiverUsername :: "string option"
  maxCacheSize :: int
  requestTimeout :: int

definition apiPrefixError :: string where
  "apiPrefixError = ''apiPrefix must be a string starting with '' @ [CHR 0x22] @ ''/'' @ [CHR 0x22]"

definition cacheDurationError :: string where
  "cacheDurationError =
     ''cacheDuration must be an integer between '' @ showInt MIN_CACHE_DURATION @
     '' and '' @ showInt MAX_CACHE_DURATION"

definition excludePathsError :: string where
  "excludePathsError = ''excludePaths must be an array of strings''"

definition additionalHeadersError :: string where
  "additionalHeadersError = ''additionalHeaders must be an object''"

definition checkApiPrefix :: "AutoApiConfig \<Rightarrow> string list \<Rightarrow> string list" where
  "checkApiPrefix config errors =
     (if raw_apiPrefix config \<noteq> Undefined then
        (if \<not> isStr (raw_apiPrefix config) \<or> \<not> startsWith (strOf (raw_apiPrefix config)) ''/''
         then errors @ [apiPrefixError] else errors)
      else errors)"

definition checkCacheDuration :: "AutoApiConfig \<Rightarrow> string list \<Rightarrow> string list" where
  "checkCacheDuration config errors =
     (if raw_cacheDuration config \<noteq> Undefined then
        (if \<not> isInteger (raw_cacheDuration config) \<or>
            (case raw_cacheDuration config of
               Num n \<Rightarrow> numLess n MIN_CACHE_DURATION \<or> numGreater n MAX_CACHE_DURATION
             | _ \<Rightarrow> False)
         then errors @ [cacheDurationError] else errors)
      else errors)"

definition checkExcludePaths :: "AutoApiConfig \<Rightarrow> string list \<Rightarrow> string list" where
  "checkExcludePaths config errors =
     (if raw_excludePaths config \<noteq> Undefined then
        (if (case raw_excludePaths config of Arr xs \<Rightarrow> \<not> list_all isStr xs | _ \<Rightarrow> True)
         then errors @ [excludePathsError] else errors)
      else errors)"

definition checkAdditionalHeaders :: "AutoApiConfig \<Rightarrow> string list \<Rightarrow> string list" where
  "checkAdditionalHeaders config errors =
     (if raw_additionalHeaders config \<noteq> Undefined then
        (if \<not> isNonNullObject (raw_additionalHeaders config)
         then errors @ [additionalHeadersError] else errors)
      else errors)"

text \<open>The four checks in the order of the source, each pushing onto \<^verbatim>\<open>errors\<close>.\<close>

definition validationErrors :: "AutoApiConfig \<Rightarrow> string list" where
  "validationErrors config =
     checkAdditionalHeaders config
       (checkExcludePaths config
          (checkCacheDuration config
             (checkApiPrefix config [])))"

text \<open>
  The normalised record: \<^verbatim>\<open>??\<close> gives the default for \<^verbatim>\<open>undefined\<close>. It is built only
  after the checks have passed, when a given prefix is a string, a given duration an
  integer and given paths an array of strings.
\<close>

definition normalizedConfig :: "AutoApiConfig \<Rightarrow> Config" where
  "normalizedConfig config =
     \<lparr>enabled = (case raw_enabled config of None \<Rightarrow> True | Some b \<Rightarrow> b),
      apiPrefix = (case raw_apiPrefix config of Str p \<Rightarrow> p | _ \<Rightarrow> DEFAULT_API_PREFIX),
      excludePaths = (case raw_excludePaths config of Arr xs \<Rightarrow> map strOf xs | _ \<Rightarrow> []),
      additionalHeaders =
        (case raw_additionalHeaders config of Undefined \<Rightarrow> Obj [] | Null \<Rightarrow> Obj [] | v \<Rightarrow> v),
      enableCache = (case raw_enableCache config of None \<Rightarrow> False | Some b \<Rightarrow> b),
      cacheDuration =
        (case raw_cacheDuration config of Num n \<Rightarrow> numToInt n | _ \<Rightarrow> DEFAULT_CACHE_DURATION),
      cfg_receiverUsername = raw_receiverUsername config,
      maxCacheSize =
        (case raw_maxCacheSize config of None \<Rightarrow> DEFAULT_MAX_CACHE_SIZE | Some n \<Rightarrow> n),
      requestTimeout =
        (case raw_requestTimeout config of None \<Rightarrow> DEFAULT_REQUEST_TIMEOUT | Some n \<Rightarrow> n)\<rparr>"

definition validateAndNormalizeConfig :: "AutoApiConfig \<Rightarrow> AutoApiError + Config" where
  "validateAndNormalizeConfig config =
     (let errors = validationErrors config in
      if length errors > 0 then
        Inl (AutoApiError (''Configuration validation failed: '' @ joinWith '', '' errors)
               INVALID_CONFIG None None)
      else Inr (normalizedConfig config))"

text \<open>
  \<^verbatim>\<open>clearCache\<close> of index.ts; \<open>None\<close> is a call without argument, which takes the
  default duration.
\<close>

definition clearCache :: "jsnum option \<Rightarrow> int \<Rightarrow> CacheState \<Rightarrow> (AutoApiError + int) \<times> CacheState" where
  "clearCache arg now s =
     (let duration = (case arg of None \<Rightarrow> Finite (of_int DEFAULT_CACHE_DURATION) | Some v \<Rightarrow> v) in
      if \<not> numIsInteger duration \<or> numLess duration 1 then
        (Inl (AutoApiError ''cacheDuration must be a positive integer'' INVALID_CONFIG None None), s)
      else
        (let r = clearExpiredCache (numToInt duration) now s in (Inr (fst r), snd r)))"


section \<open>Extraction (middleware.ts)\<close>

text \<open>
  The cheerio library is not part of the repository. \<^verbatim>\<open>cheerio.load\<close> is a parameter
  that gives the parsed document, a forest of nodes with lower-case tag names, and the
  few operations \<^verbatim>\<open>extractPageData\<close> calls on a selection follow the library's
  documentation: a selection is the list of matching elements in document order,
  \<^verbatim>\<open>.text()\<close> is the combined text of every element of the selection with its
  descendants, \<^verbatim>\<open>.first()\<close> keeps the first element, and \<^verbatim>\<open>.attr(name)\<close> reads the
  attribute of the first element.
\<close>

datatype Node =
    TextNode string
  | CommentNode string
  | Element string "(string \<times> string) list" "Node list"

fun elementsOf :: "Node \<Rightarrow> Node list" where
  "elementsOf (TextNode t) = []"
| "elementsOf (CommentNode t) = []"
| "elementsOf (Element tag attrs children) =
     Element tag attrs children # concat (map elementsOf children)"

definition allElements :: "Node list \<Rightarrow> Node list" where
  "allElements doc = concat (map elementsOf doc)"

fun tagOf :: "Node \<Rightarrow> string" where
  "tagOf (Element tag attrs children) = tag"
| "tagOf _ = []"

fun attrsOf :: "Node \<Rightarrow> (string \<times> string) list" where
  "attrsOf (Element tag attrs children) = attrs"
| "attrsOf _ = []"

fun nodeText :: "Node \<Rightarrow> string" where
  "nodeText (TextNode t) = t"
| "nodeText (CommentNode t) = []"
| "nodeText (Element tag attrs children) = concat (map nodeText children)"

text \<open>\<^verbatim>\<open>$('h1, h2')\<close>: the elements with one of the tag names.\<close>

definition selectTags :: "string list \<Rightarrow> Node list \<Rightarrow> Node list" where
  "selectTags tags doc = filter (\<lambda>e. tagOf e \<in> set tags) (allElements doc)"

text \<open>\<^verbatim>\<open>$('meta[name="description"]')\<close>\<close>

definition selectMetaDescription :: "Node list \<Rightarrow> Node list" where
  "selectMetaDescription doc =
     filter (\<lambda>e. tagOf e = ''meta'' \<and> map_of (attrsOf e) ''name'' = Some ''description'')
       (allElements doc)"

definition selText :: "Node list \<Rightarrow> string" where
  "selText sel = concat (map nodeText sel)"

definition selFirst :: "Node list \<Rightarrow> Node list" where
  "selFirst sel = take 1 sel"

definition selAttr :: "string \<Rightarrow> Node list \<Rightarrow> string option" where
  "selAttr name sel = (case sel of [] \<Rightarrow> None | e # _ \<Rightarrow> map_of (attrsOf e) name)"

definition toUpperChar :: "char \<Rightarrow> char" where
  "toUpperChar c =
     (case map_of (zip ''abcdefghijklmnopqrstuvwxyz'' ''ABCDEFGHIJKLMNOPQRSTUVWXYZ'') c of
        None \<Rightarrow> c | Some u \<Rightarrow> u)"

text \<open>\<^verbatim>\<open>$element.prop('tagName')\<close>: the tag name in upper case.\<close>

definition propTagName :: "Node \<Rightarrow> string" where
  "propTagName e = map toUpperChar (tagOf e)"

definition digitValue :: "char \<Rightarrow> nat option" where
  "digitValue c = map_of (zip ''0123456789'' [0, 1, 2, 3, 4, 5, 6, 7, 8, 9]) c"

text \<open>
  \<^verbatim>\<open>parseInt\<close> on the unsigned decimal strings the code gives it: leading white space
  is skipped, the longest prefix of digits is read, and \<open>None\<close> (for \<^verbatim>\<open>NaN\<close>) is the
  result when there is no digit.
\<close>

definition parseInt :: "string \<Rightarrow> int option" where
  "parseInt str =
     (let ds = takeWhile (\<lambda>c. digitValue c \<noteq> None) (dropWhile isWhiteSpace str) in
      if ds = [] then None
      else Some (foldl (\<lambda>acc c. 10 * acc + int (the (digitValue c))) 0 ds))"

text \<open>The body of the \<^verbatim>\<open>.each\<close> callback, pushing onto \<^verbatim>\<open>headings\<close>.\<close>

definition pushHeading :: "Heading list \<Rightarrow> Node \<Rightarrow> Heading list" where
  "pushHeading acc element =
     (let sub = drop 1 (propTagName element);
          lvl = parseInt (if sub = [] then ''1'' else sub);
          txt = trim (nodeText element)
      in if txt \<noteq> [] then acc @ [\<lparr>h_level = lvl, h_text = txt\<rparr>] else acc)"

text \<open>
  What the functions take from outside the repository: the parser (\<open>Inl\<close>, the name
  of the error, when it throws), \<^verbatim>\<open>Date.prototype.toISOString\<close>,
  \<^verbatim>\<open>new URL(path, base).toString()\<close> (\<open>None\<close> when it throws) and the network.
\<close>

text \<open>
  What the origin does with a request, in milliseconds since the request was issued. It
  never answers, or the connection fails at some time with an error of some name, or the
  status line and headers arrive at some time; the body then is complete at some time,
  or its reading fails at some time, or it never is complete.
\<close>

datatype BodyBehaviour =
    BodyArrives nat string
  | BodyFails nat string
  | BodyStalls

datatype OriginBehaviour =
    Unresponsive
  | ConnectionFails nat string
  | Answers nat nat string BodyBehaviour

record Externals =
  cheerioLoad :: "string \<Rightarrow> string + Node list"
  toISOString :: "int \<Rightarrow> string"
  urlToString :: "string \<Rightarrow> string \<Rightarrow> string option"
  origin :: "string \<Rightarrow> OriginBehaviour"

definition extractPageData ::
  "Externals \<Rightarrow> string \<Rightarrow> string \<Rightarrow> string option \<Rightarrow> int \<Rightarrow> AutoApiError + PageData" where
  "extractPageData ext markup pagePath receiver now =
     (case cheerioLoad ext markup of
        Inl cause \<Rightarrow> Inl (AutoApiError ''Failed to parse HTML content'' PARSE_ERROR None (Some cause))
      | Inr doc \<Rightarrow>
          (let pageTitle = trim (selText (selectTags [''title''] doc));
               firstH1 = trim (selText (selFirst (selectTags [''h1''] doc)));
               description = map_option trim (selAttr ''content'' (selectMetaDescription doc));
               collected =
                 foldl pushHeading []
                   (selectTags [''h1'', ''h2'', ''h3'', ''h4'', ''h5'', ''h6''] doc)
           in Inr \<lparr>path = pagePath,
                   timestamp = toISOString ext now,
                   title = pageTitle,
                   h1 = firstH1,
                   html = Some markup,
                   receiverUsername = receiver,
                   contentLength = Some (int (length markup)),
                   extractedAt = Some now,
                   statusCode = Some 200,
                   headings = Some collected,
                   metaDescription = description\<rparr>))"

section \<open>Fetching (middleware.ts)\<close>

text \<open>The request: \<^verbatim>\<open>nextUrl.pathname\<close>, \<^verbatim>\<open>nextUrl.protocol\<close> and the host header.\<close>

record Request =
  pathname :: string
  protocol :: string
  hostHeader :: "string option"

text \<open>A thrown value is an \<^verbatim>\<open>AutoApiError\<close> or another error, known by its name.\<close>

datatype Thrown = Api AutoApiError | Other string

definition constructPageUrl :: "Externals \<Rightarrow> Request \<Rightarrow> string \<Rightarrow> Thrown + string" where
  "constructPageUrl ext request pagePath =
     (case hostHeader request of
        None \<Rightarrow> Inl (Api (AutoApiError ''Missing host header in request'' FETCH_ERROR (Some 400) None))
      | Some h \<Rightarrow>
          if h = [] then
            Inl (Api (AutoApiError ''Missing host header in request'' FETCH_ERROR (Some 400) None))
          else
            (case urlToString ext pagePath (protocol request @ ''//'' @ h) of
               None \<Rightarrow> Inl (Other ''TypeError'')
             | Some u \<Rightarrow> Inr u))"

definition responseOk :: "nat \<Rightarrow> bool" where
  "responseOk status = (200 \<le> status \<and> status \<le> 299)"

text \<open>
  The abort timer, \<^verbatim>\<open>setTimeout(() => controller.abort(), timeout)\<close>, is set when the
  request is issued and fires \<open>timeout\<close> milliseconds later, unless \<^verbatim>\<open>clearTimeout\<close> has
  been called by then. Something that happens at time \<open>t\<close> happens before the timer fires
  when \<open>t < timeout\<close>.
\<close>

definition beforeTimer :: "nat \<Rightarrow> int \<Rightarrow> bool" where
  "beforeTimer t timeout = (int t < timeout)"

text \<open>
  \<^verbatim>\<open>await fetch(url, {signal})\<close> with the timer set: the promise settles with what the
  origin does when that happens before the timer fires; otherwise the timer fires first,
  the signal aborts the request and the promise rejects with an \<^verbatim>\<open>AbortError\<close>. A
  resolved promise has the status, the status text and the body still to be read.
\<close>

datatype FetchOutcome =
    Rejected string
  | Responded nat string BodyBehaviour

definition awaitFetch :: "OriginBehaviour \<Rightarrow> int \<Rightarrow> FetchOutcome" where
  "awaitFetch behaviour timeout =
     (case behaviour of
        Unresponsive \<Rightarrow> Rejected ''AbortError''
      | ConnectionFails t name \<Rightarrow>
          if beforeTimer t timeout then Rejected name else Rejected ''AbortError''
      | Answers t status statusText body \<Rightarrow>
          if beforeTimer t timeout then Responded status statusText body
          else Rejected ''AbortError'')"

text \<open>
  \<^verbatim>\<open>await response.text()\<close>: the text (\<open>Inr\<close>) or the name of the error (\<open>Inl\<close>), and
  \<open>None\<close> when the promise never settles. While the timer is set, a body that is not
  complete when it fires is aborted and the promise rejects with an \<^verbatim>\<open>AbortError\<close>; once
  the timer is cleared nothing ends the wait for a body that never is complete.
\<close>

definition awaitText :: "bool \<Rightarrow> int \<Rightarrow> BodyBehaviour \<Rightarrow> (string + string) option" where
  "awaitText timerSet timeout body =
     (case body of
        BodyArrives t content \<Rightarrow>
          if timerSet \<and> \<not> beforeTimer t timeout then Some (Inl ''AbortError'')
          else Some (Inr content)
      | BodyFails t name \<Rightarrow>
          if timerSet \<and> \<not> beforeTimer t timeout then Some (Inl ''AbortError'')
          else Some (Inl name)
      | BodyStalls \<Rightarrow> if timerSet then Some (Inl ''AbortError'') else None)"

text \<open>
  The \<^verbatim>\<open>try\<close> block of \<^verbatim>\<open>fetchPageContent\<close>; \<open>None\<close> when it never finishes. The
  call \<^verbatim>\<open>clearTimeout(timeoutId)\<close> comes right after \<^verbatim>\<open>await fetch\<close>, so the timer is
  no longer set when the status is tested and the body is read.
\<close>

definition fetchTry :: "Externals \<Rightarrow> string \<Rightarrow> int \<Rightarrow> (Thrown + string) option" where
  "fetchTry ext url timeout =
     (case awaitFetch (origin ext url) timeout of
        Rejected name \<Rightarrow> Some (Inl (Other name))
      | Responded status statusText body \<Rightarrow>
          (let timerSet = False in
           if \<not> responseOk status then
             Some (Inl (Api (AutoApiError (''HTTP '' @ showNat status @ '': '' @ statusText)
                               FETCH_ERROR (Some (int status)) None)))
           else
             (case awaitText timerSet timeout body of
                None \<Rightarrow> None
              | Some (Inl name) \<Rightarrow> Some (Inl (Other name))
              | Some (Inr content) \<Rightarrow> Some (Inr content))))"

text \<open>The \<^verbatim>\<open>catch\<close> block, which calls \<^verbatim>\<open>clearTimeout\<close> again; the name of an
  \<^verbatim>\<open>AutoApiError\<close> is \<^verbatim>\<open>AutoApiError\<close>.\<close>

definition fetchCatch :: "int \<Rightarrow> Thrown \<Rightarrow> Thrown" where
  "fetchCatch timeout err =
     (let name = (case err of Api e \<Rightarrow> ''AutoApiError'' | Other n \<Rightarrow> n) in
      if name = ''AbortError'' then
        Api (AutoApiError (''Request timeout after '' @ showInt timeout @ ''ms'')
               TIMEOUT_ERROR (Some 408) None)
      else err)"

text \<open>\<^verbatim>\<open>fetchPageContent\<close>; \<open>None\<close> when the call never returns.\<close>

definition fetchPageContent :: "Externals \<Rightarrow> string \<Rightarrow> int \<Rightarrow> (Thrown + string) option" where
  "fetchPageContent ext url timeout =
     (case fetchTry ext url timeout of
        None \<Rightarrow> None
      | Some (Inl err) \<Rightarrow> Some (Inl (fetchCatch timeout err))
      | Some (Inr content) \<Rightarrow> Some (Inr content))"

section \<open>The pipeline (middleware.ts)\<close>

text \<open>The values of \<^verbatim>\<open>Date.now()\<close> at the places of the pipeline that read the clock.\<close>

record Clock =
  tLookup :: int
  tExtract :: int
  tStore :: int
  tError :: int

text \<open>The options object of \<^verbatim>\<open>getPageData\<close>.\<close>

record Options =
  opt_enableCache :: bool
  opt_cacheDuration :: int
  opt_receiverUsername :: "string option"
  opt_maxCacheSize :: int
  opt_requestTimeout :: int

text \<open>What a call leaves behind: the cache and the URLs requested from the network.\<close>

record Effects =
  cacheAfter :: CacheState
  fetched :: "string list"

text \<open>The \<^verbatim>\<open>catch\<close> block of \<^verbatim>\<open>getPageData\<close>.\<close>

definition pageDataCatch :: "string \<Rightarrow> Thrown \<Rightarrow> AutoApiError" where
  "pageDataCatch pagePath err =
     (case err of
        Api e \<Rightarrow> e
      | Other name \<Rightarrow>
          AutoApiError (''Failed to fetch page data for path: '' @ pagePath) FETCH_ERROR None (Some name))"

text \<open>
  \<^verbatim>\<open>getPageData\<close>: the error thrown (\<open>Inl\<close>) or the page data returned (\<open>Inr\<close>), and
  \<open>None\<close> when the call never returns, together with what it leaves behind.
\<close>

definition getPageData ::
  "Externals \<Rightarrow> Clock \<Rightarrow> Request \<Rightarrow> string \<Rightarrow> Options \<Rightarrow> CacheState \<Rightarrow>
   (AutoApiError + PageData) option \<times> Effects" where
  "getPageData ext clock request pagePath options s =
     (let lookup = (if opt_enableCache options
                    then getCachedData pagePath (opt_cacheDuration options) (tLookup clock) s
                    else (None, s));
          s1 = snd lookup
      in case fst lookup of
           Some cachedData \<Rightarrow>
             (Some (Inr (cachedData\<lparr>receiverUsername := opt_receiverUsername options\<rparr>)),
              \<lparr>cacheAfter = s1, fetched = []\<rparr>)
         | None \<Rightarrow>
             (case constructPageUrl ext request pagePath of
                Inl err \<Rightarrow>
                  (Some (Inl (pageDataCatch pagePath err)), \<lparr>cacheAfter = s1, fetched = []\<rparr>)
              | Inr pageUrl \<Rightarrow>
                  (case fetchPageContent ext pageUrl (opt_requestTimeout options) of
                     None \<Rightarrow> (None, \<lparr>cacheAfter = s1, fetched = [pageUrl]\<rparr>)
                   | Some (Inl err) \<Rightarrow>
                       (Some (Inl (pageDataCatch pagePath err)),
                        \<lparr>cacheAfter = s1, fetched = [pageUrl]\<rparr>)
                   | Some (Inr htmlContent) \<Rightarrow>
                       (case extractPageData ext htmlContent pagePath
                               (opt_receiverUsername options) (tExtract clock) of
                          Inl e \<Rightarrow>
                            (Some (Inl (pageDataCatch pagePath (Api e))),
                             \<lparr>cacheAfter = s1, fetched = [pageUrl]\<rparr>)
                        | Inr extractedData \<Rightarrow>
                            (Some (Inr extractedData),
                             \<lparr>cacheAfter =
                                (if opt_enableCache options \<and>
                                    shouldCacheData extractedData (opt_maxCacheSize options)
                                 then cachePageData pagePath extractedData
                                        (opt_maxCacheSize options) (tStore clock) s1
                                 else s1),
                              fetched = [pageUrl]\<rparr>)))))"

text \<open>
  The responses of the middleware: \<^verbatim>\<open>NextResponse.next()\<close>, the JSON page data with
  status 200 and the headers set on it, and the error body of \<^verbatim>\<open>createErrorResponse\<close>
  (message, type, timestamp) with its status.
\<close>

datatype Response =
    Next
  | JsonPage PageData "(string \<times> string) list"
  | ErrorResponse string AutoApiErrorType string int

definition createErrorResponse :: "Externals \<Rightarrow> Clock \<Rightarrow> string \<Rightarrow> int \<Rightarrow> AutoApiErrorType \<Rightarrow> Response" where
  "createErrorResponse ext clock message status type =
     ErrorResponse message type (toISOString ext (tError clock)) status"

text \<open>\<^verbatim>\<open>error.statusCode || 500\<close>: a missing status code, or 0, gives 500.\<close>

definition handleMiddlewareError :: "Externals \<Rightarrow> Clock \<Rightarrow> Thrown \<Rightarrow> Response" where
  "handleMiddlewareError ext clock err =
     (case err of
        Api (AutoApiError message type code originalError) \<Rightarrow>
          createErrorResponse ext clock message
            (case code of None \<Rightarrow> 500 | Some c \<Rightarrow> if c = 0 then 500 else c) type
      | Other name \<Rightarrow>
          createErrorResponse ext clock ''An unexpected error occurred'' 500 FETCH_ERROR)"

text \<open>\<^verbatim>\<open>Object.entries\<close> of the headers object; an array has its indices as keys.\<close>

fun objectEntries :: "jsval \<Rightarrow> (string \<times> jsval) list" where
  "objectEntries (Obj kvs) = kvs"
| "objectEntries (Arr xs) = zip (map showNat [0..<length xs]) xs"
| "objectEntries _ = []"

text \<open>
  \<^verbatim>\<open>response.headers.set\<close> as the Fetch standard has it. A header list holds names in
  lower case. A name must be a non-empty token and a value, once the white space around
  it is removed, must hold no NUL, line feed or carriage return: otherwise \<^verbatim>\<open>set\<close>
  throws a \<^verbatim>\<open>TypeError\<close> (\<open>Inl\<close>). The value of a header already present is replaced.
\<close>

type_synonym headerList = "(string \<times> string) list"

definition toLowerChar :: "char \<Rightarrow> char" where
  "toLowerChar c =
     (case map_of (zip ''ABCDEFGHIJKLMNOPQRSTUVWXYZ'' ''abcdefghijklmnopqrstuvwxyz'') c of
        None \<Rightarrow> c | Some l \<Rightarrow> l)"

definition tokenChars :: "char list" where
  "tokenChars =
     [CHR 0x21, CHR 0x23, CHR 0x24, CHR 0x25, CHR 0x26, CHR 0x27, CHR 0x2A, CHR 0x2B, CHR 0x2D,
      CHR 0x2E, CHR 0x5E, CHR 0x5F, CHR 0x60, CHR 0x7C, CHR 0x7E] @
     ''0123456789'' @ ''abcdefghijklmnopqrstuvwxyz'' @ ''ABCDEFGHIJKLMNOPQRSTUVWXYZ''"

definition validHeaderName :: "string \<Rightarrow> bool" where
  "validHeaderName name = (name \<noteq> [] \<and> list_all (\<lambda>c. c \<in> set tokenChars) name)"

definition isHttpWhiteSpace :: "char \<Rightarrow> bool" where
  "isHttpWhiteSpace c = (c \<in> set [CHR 0x09, CHR 0x0A, CHR 0x0D, CHR 0x20])"

definition normalizeHeaderValue :: "string \<Rightarrow> string" where
  "normalizeHeaderValue v = rev (dropWhile isHttpWhiteSpace (rev (dropWhile isHttpWhiteSpace v)))"

definition validHeaderValue :: "string \<Rightarrow> bool" where
  "validHeaderValue v = (\<not> list_ex (\<lambda>c. c \<in> set [CHR 0x00, CHR 0x0A, CHR 0x0D]) v)"

fun headerListSet :: "string \<Rightarrow> string \<Rightarrow> headerList \<Rightarrow> headerList" where
  "headerListSet k v [] = [(k, v)]"
| "headerListSet k v ((k', v') # hs) =
     (if k' = k then (k, v) # hs else (k', v') # headerListSet k v hs)"

definition headersSet :: "string \<Rightarrow> string \<Rightarrow> headerList \<Rightarrow> string + headerList" where
  "headersSet name v hs =
     (let normalized = normalizeHeaderValue v in
      if validHeaderName name \<and> validHeaderValue normalized
      then Inr (headerListSet (map toLowerChar name) normalized hs)
      else Inl ''TypeError'')"

text \<open>
  \<^verbatim>\<open>applyAdditionalHeaders\<close>: the \<^verbatim>\<open>forEach\<close> over the entries sets the string values
  in turn and ends at the first \<^verbatim>\<open>set\<close> that throws.
\<close>

fun applyEntries :: "(string \<times> jsval) list \<Rightarrow> headerList \<Rightarrow> string + headerList" where
  "applyEntries [] hs = Inr hs"
| "applyEntries ((key, v) # entries) hs =
     (if isStr v then
        (case headersSet key (strOf v) hs of
           Inl name \<Rightarrow> Inl name
         | Inr hs' \<Rightarrow> applyEntries entries hs')
      else applyEntries entries hs)"

definition applyAdditionalHeaders :: "headerList \<Rightarrow> jsval \<Rightarrow> string + headerList" where
  "applyAdditionalHeaders responseHeaders hdrs = applyEntries (objectEntries hdrs) responseHeaders"

text \<open>
  The function \<^verbatim>\<open>middleware\<close> that \<^verbatim>\<open>withAutoApiMiddleware\<close> returns: the response,
  \<open>None\<close> when the call never returns, and what it leaves behind. A \<^verbatim>\<open>TypeError\<close> from
  setting a header is thrown inside the \<^verbatim>\<open>try\<close> block, after the page was fetched, and
  is answered by \<^verbatim>\<open>handleMiddlewareError\<close>.
\<close>

definition middleware ::
  "Externals \<Rightarrow> Clock \<Rightarrow> Config \<Rightarrow> Request \<Rightarrow> CacheState \<Rightarrow> Response option \<times> Effects" where
  "middleware ext clock config request s =
     (if \<not> enabled config then (Some Next, \<lparr>cacheAfter = s, fetched = []\<rparr>)
      else if \<not> startsWith (pathname request) (apiPrefix config)
      then (Some Next, \<lparr>cacheAfter = s, fetched = []\<rparr>)
      else
        (let pagePath = extractPagePath (pathname request) (apiPrefix config) in
         if \<not> isValidPath pagePath then
           (Some (createErrorResponse ext clock ''Invalid path format'' 400 INVALID_CONFIG),
            \<lparr>cacheAfter = s, fetched = []\<rparr>)
         else if isPathExcluded pagePath (excludePaths config) then
           (Some Next, \<lparr>cacheAfter = s, fetched = []\<rparr>)
         else
           (let r = getPageData ext clock request pagePath
                      \<lparr>opt_enableCache = enableCache config,
                       opt_cacheDuration = cacheDuration config,
                       opt_receiverUsername = cfg_receiverUsername config,
                       opt_maxCacheSize = maxCacheSize config,
                       opt_requestTimeout = requestTimeout config\<rparr> s
            in case fst r of
                 None \<Rightarrow> (None, snd r)
               | Some (Inl e) \<Rightarrow> (Some (handleMiddlewareError ext clock (Api e)), snd r)
               | Some (Inr pageData) \<Rightarrow>
                   (case applyAdditionalHeaders [(''content-type'', ''application/json'')]
                           (additionalHeaders config) of
                      Inl name \<Rightarrow> (Some (handleMiddlewareError ext clock (Other name)), snd r)
                    | Inr responseHeaders \<Rightarrow> (Some (JsonPage pageData responseHeaders), snd r)))))"

definition withAutoApiMiddleware ::
  "Externals \<Rightarrow> Clock \<Rightarrow> AutoApiConfig \<Rightarrow>
   AutoApiError + (Request \<Rightarrow> CacheState \<Rightarrow> Response option \<times> Effects)" where
  "withAutoApiMiddleware ext clock config =
     (case validateAndNormalizeConfig config of
        Inl e \<Rightarrow> Inl e
      | Inr validatedConfig \<Rightarrow> Inr (middleware ext clock validatedConfig))"

section \<open>Notions used to state the properties\<close>

text \<open>The sum of the recorded sizes of the stored entries, and the invariant that the
  running total equals it.\<close>

definition storedSize :: "jsMap \<Rightarrow> int" where
  "storedSize m = sum_list (map (\<lambda>kv. entry_size (snd kv)) m)"

definition consistent :: "CacheState \<Rightarrow> bool" where
  "consistent s = (totalCacheSize s = storedSize (cache s))"

text \<open>A \<^verbatim>\<open>Map\<close> holds one entry per key; every operation keeps this.\<close>

definition uniqueKeys :: "CacheState \<Rightarrow> bool" where
  "uniqueKeys s = distinct (map fst (cache s))"

text \<open>Sequences of cache operations, each with its arguments and its clock reading.\<close>

datatype CacheOp = Put string PageData int int | Get string int int | Sweep int int

fun applyOp :: "CacheState \<Rightarrow> CacheOp \<Rightarrow> CacheState" where
  "applyOp s (Put k d mx now) = cachePageData k d mx now s"
| "applyOp s (Get k ttl now) = snd (getCachedData k ttl now s)"
| "applyOp s (Sweep ttl now) = snd (clearExpiredCache ttl now s)"

definition runOps :: "CacheOp list \<Rightarrow> CacheState \<Rightarrow> CacheState" where
  "runOps ops s = foldl applyOp s ops"

text \<open>An entry is expired when it is older than the duration, as both \<^verbatim>\<open>getCachedData\<close>
  and \<^verbatim>\<open>clearExpiredCache\<close> test it.\<close>

definition expired :: "int \<Rightarrow> int \<Rightarrow> string \<times> CachedPageData \<Rightarrow> bool" where
  "expired ttl now kv = (now - entry_timestamp (snd kv) > ttl * 1000)"

section \<open>Concrete inputs\<close>

text \<open>Two pages whose recorded size is 100: 21 characters of markup and 79 more of the
  serialised record.\<close>

definition pageA :: PageData where
  "pageA = \<lparr>path = ''/a'', timestamp = ''t'', title = '''', h1 = '''',
     html = Some ''<h1>AAAAAAAAAAAA</h1>'',
     receiverUsername = None, contentLength = None, extractedAt = None, statusCode = None,
     headings = None, metaDescription = None\<rparr>"

definition pageB :: PageData where
  "pageB = \<lparr>path = ''/b'', timestamp = ''t'', title = '''', h1 = '''',
     html = Some ''<h1>BBBBBBBBBBBB</h1>'',
     receiverUsername = None, contentLength = None, extractedAt = None, statusCode = None,
     headings = None, metaDescription = None\<rparr>"

text \<open>
  The configuration without any option, and an origin serving the page
  \<^verbatim>\<open>/about\<close>: its markup, the document the parser gives for it, and an origin that
  answers for this page within 35 milliseconds, never answers for \<^verbatim>\<open>/slow\<close>, answers
  after seven seconds for \<^verbatim>\<open>/tardy\<close>, sends the headers at once and then never
  completes the body for \<^verbatim>\<open>/stalled\<close>, sends the headers at once and the body after a
  minute for \<^verbatim>\<open>/late\<close>, and knows no other page; a clock at the epoch, and a request
  for a path on the host.
\<close>

definition emptyConfig :: AutoApiConfig where
  "emptyConfig = \<lparr>raw_enabled = None, raw_apiPrefix = Undefined, raw_excludePaths = Undefined,
     raw_additionalHeaders = Undefined, raw_enableCache = None, raw_cacheDuration = Undefined,
     raw_receiverUsername = None, raw_maxCacheSize = None, raw_requestTimeout = None\<rparr>"

definition demoMarkup :: string where
  "demoMarkup = ''<html><head><title>About</title></head><body><h1>Hello</h1><h2>Sub</h2></body></html>''"

definition demoDoc :: "Node list" where
  "demoDoc =
     [Element ''html'' []
        [Element ''head'' [] [Element ''title'' [] [TextNode ''About'']],
         Element ''body'' []
           [Element ''h1'' [] [TextNode ''Hello''], Element ''h2'' [] [TextNode ''Sub'']]]]"

definition demoExternals :: Externals where
  "demoExternals =
     \<lparr>cheerioLoad = (\<lambda>markup. if markup = demoMarkup then Inr demoDoc else Inl ''Error''),
      toISOString = (\<lambda>t. ''1970-01-01T00:00:00.000Z''),
      urlToString = (\<lambda>p base. Some (base @ p)),
      origin = (\<lambda>url.
         if url = ''http://example.com/about'' then Answers 20 200 ''OK'' (BodyArrives 35 demoMarkup)
         else if url = ''http://example.com/slow'' then Unresponsive
         else if url = ''http://example.com/tardy'' then
           Answers 7000 200 ''OK'' (BodyArrives 7010 demoMarkup)
         else if url = ''http://example.com/stalled'' then Answers 20 200 ''OK'' BodyStalls
         else if url = ''http://example.com/late'' then
           Answers 20 200 ''OK'' (BodyArrives 60000 demoMarkup)
         else Answers 15 404 ''Not Found'' (BodyArrives 16 []))\<rparr>"

definition demoClock :: Clock where
  "demoClock = \<lparr>tLookup = 0, tExtract = 0, tStore = 0, tError = 0\<rparr>"

definition demoRequest :: "string \<Rightarrow> Request" where
  "demoRequest p = \<lparr>pathname = p, protocol = ''http:'', hostHeader = Some ''example.com''\<rparr>"

definition demoOptions :: "string option \<Rightarrow> Options" where
  "demoOptions receiver =
     \<lparr>opt_enableCache = True, opt_cacheDuration = 3600, opt_receiverUsername = receiver,
      opt_maxCacheSize = 1048576, opt_requestTimeout = 5000\<rparr>"

definition demoPage :: "string option \<Rightarrow> PageData" where
  "demoPage receiver =
     \<lparr>path = ''/about'', timestamp = ''1970-01-01T00:00:00.000Z'', title = ''About'',
      h1 = ''Hello'', html = Some demoMarkup, receiverUsername = receiver,
      contentLength = Some 85, extractedAt = Some 0, statusCode = Some 200,
      headings = Some [\<lparr>h_level = Some 1, h_text = ''Hello''\<rparr>, \<lparr>h_level = Some 2, h_text = ''Sub''\<rparr>],
      metaDescription = None\<rparr>"

definition cacheWithA :: CacheState where
  "cacheWithA =
     cacheAfter (snd (getPageData demoExternals demoClock (demoRequest ''/api/about'') ''/about''
                        (demoOptions (Some ''A'')) emptyCache))"

text \<open>A configuration that fails each of the four checks.\<close>

definition badConfig :: AutoApiConfig where
  "badConfig = emptyConfig\<lparr>raw_apiPrefix := Str ''api'', raw_cacheDuration := Num (Finite (3 / 2)),
     raw_excludePaths := Arr [Str ''/a'', Null], raw_additionalHeaders := Null\<rparr>"

text \<open>A request without host header, and options with the cache switched off.\<close>

definition noHostRequest :: Request where
  "noHostRequest = \<lparr>pathname = ''/api/about'', protocol = ''http:'', hostHeader = None\<rparr>"

definition uncachedOptions :: Options where
  "uncachedOptions =
     \<lparr>opt_enableCache = False, opt_cacheDuration = 3600, opt_receiverUsername = None,
      opt_maxCacheSize = 1048576, opt_requestTimeout = 5000\<rparr>"

text \<open>The default configuration with the given additional headers.\<close>

definition headerConfig :: "(string \<times> jsval) list \<Rightarrow> Config" where
  "headerConfig entries = (normalizedConfig emptyConfig)\<lparr>additionalHeaders := Obj entries\<rparr>"

text \<open>The heading tags and the level each stands for, its digit.\<close>

definition headingTags :: "string list" where
  "headingTags = [''h1'', ''h2'', ''h3'', ''h4'', ''h5'', ''h6'']"

definition levelOfTag :: "string \<Rightarrow> int option" where
  "levelOfTag tag =
     map_of [(''h1'', 1), (''h2'', 2), (''h3'', 3), (''h4'', 4), (''h5'', 5), (''h6'', 6)] tag"

text \<open>
  Three more pages and the documents the parser gives for them: one whose only title is
  padded with spaces, one with a second \<^verbatim>\<open>title\<close> element inside an inline SVG image,
  one with a meta description, padded texts and a heading without text.
\<close>

definition paddedMarkup :: string where
  "paddedMarkup = ''<html><head><title> About </title></head><body><h1>Us</h1></body></html>''"

definition paddedDoc :: "Node list" where
  "paddedDoc =
     [Element ''html'' []
        [Element ''head'' [] [Element ''title'' [] [TextNode '' About '']],
         Element ''body'' [] [Element ''h1'' [] [TextNode ''Us'']]]]"

definition titleMarkup :: string where
  "titleMarkup =
     ''<html><head><title> About </title></head><body><svg><title>Logo</title></svg></body></html>''"

definition titleDoc :: "Node list" where
  "titleDoc =
     [Element ''html'' []
        [Element ''head'' [] [Element ''title'' [] [TextNode '' About '']],
         Element ''body'' [] [Element ''svg'' [] [Element ''title'' [] [TextNode ''Logo'']]]]]"

definition richMarkup :: string where
  "richMarkup =
     ''<html><head><title>  Rich  </title><meta name='' @ [CHR 0x22] @ ''description'' @ [CHR 0x22] @
     '' content='' @ [CHR 0x22] @ '' A page '' @ [CHR 0x22] @
     ''></head><body><h2> First </h2><h1>Main</h1><h3>   </h3><h1>Second</h1></body></html>''"

definition richDoc :: "Node list" where
  "richDoc =
     [Element ''html'' []
        [Element ''head'' []
           [Element ''title'' [] [TextNode ''  Rich  ''],
            Element ''meta'' [(''name'', ''description''), (''content'', '' A page '')] []],
         Element ''body'' []
           [Element ''h2'' [] [TextNode '' First ''],
            Element ''h1'' [] [TextNode ''Main''],
            Element ''h3'' [] [TextNode ''   ''],
            Element ''h1'' [] [TextNode ''Second'']]]]"

definition pageExternals :: Externals where
  "pageExternals =
     demoExternals\<lparr>cheerioLoad :=
       (\<lambda>markup. if markup = paddedMarkup then Inr paddedDoc
                 else if markup = titleMarkup then Inr titleDoc
                 else if markup = richMarkup then Inr richDoc else Inl ''Error'')\<rparr>"


section \<open>Properties of the cache\<close>

lemma dataSizeOf_pageA: "dataSizeOf pageA = 100"
  by (simp add: pageA_def dataSizeOf_def JSON_stringify_def jsonMember_def jsonString_def jsonEscape_def)

lemma dataSizeOf_pageB: "dataSizeOf pageB = 100"
  by (simp add: pageB_def dataSizeOf_def JSON_stringify_def jsonMember_def jsonString_def jsonEscape_def)

lemma evictOld_empty: "evictOld n m emptyCache = emptyCache"
  by (simp add: evictOld.simps emptyCache_def)

lemma putA: "cachePageData ''/a'' pageA mx 0 emptyCache =
   \<lparr>cache = [(''/a'', \<lparr>entry_data = pageA, entry_timestamp = 0, entry_size = 100\<rparr>)], totalCacheSize = 100\<rparr>"
  by (simp add: cachePageData_def evictOld_empty dataSizeOf_pageA) (simp add: emptyCache_def)

subsection \<open>The map operations\<close>

lemma mapDelete_fresh: "k \<notin> fst ` set m \<Longrightarrow> mapDelete k m = m"
  by (induction m) (auto simp: mapDelete_def)

lemma mapDelete_head: "k \<notin> fst ` set m \<Longrightarrow> mapDelete k ((k, v) # m) = m"
  using mapDelete_fresh [of k m] by (simp add: mapDelete_def)

lemma mapSet_fresh: "k \<notin> fst ` set m \<Longrightarrow> mapSet k v m = m @ [(k, v)]"
  by (induction m) auto

lemma keys_mapSet: "fst ` set (mapSet k v m) = insert k (fst ` set m)"
proof (induction m)
  case Nil
  then show ?case by simp
next
  case (Cons a m)
  obtain k' v' where a: "a = (k', v')" by (cases a)
  show ?case
  proof (cases "k' = k")
    case True
    then show ?thesis by (simp add: a)
  next
    case False
    then show ?thesis using Cons by (simp add: a insert_commute)
  qed
qed

lemma distinct_mapSet: "distinct (map fst m) \<Longrightarrow> distinct (map fst (mapSet k v m))"
proof (induction m)
  case Nil
  then show ?case by simp
next
  case (Cons a m)
  obtain k' v' where a: "a = (k', v')" by (cases a)
  from Cons show ?case
    using keys_mapSet [of k v m] by (auto simp: a)
qed

lemma distinct_mapDelete: "distinct (map fst m) \<Longrightarrow> distinct (map fst (mapDelete k m))"
  by (simp add: mapDelete_def distinct_map_filter)

lemma storedSize_mapDelete:
  "distinct (map fst m) \<Longrightarrow> map_of m k = Some e \<Longrightarrow>
   storedSize (mapDelete k m) = storedSize m - entry_size e"
proof (induction m)
  case Nil
  then show ?case by simp
next
  case (Cons a m)
  obtain k' v' where a: "a = (k', v')" by (cases a)
  show ?case
  proof (cases "k' = k")
    case True
    with Cons.prems have "k \<notin> fst ` set m" and "v' = e" by (auto simp: a)
    then show ?thesis
      using mapDelete_head [of k m v'] by (simp add: a True storedSize_def)
  next
    case False
    with Cons have "storedSize (mapDelete k m) = storedSize m - entry_size e"
      by (simp add: a)
    with False show ?thesis by (simp add: a storedSize_def mapDelete_def)
  qed
qed

lemma storedSize_append: "storedSize (m @ m') = storedSize m + storedSize m'"
  by (simp add: storedSize_def)

subsection \<open>Lookup keeps the invariant\<close>

lemma getCachedData_inv:
  assumes "uniqueKeys s" and "consistent s"
  shows "uniqueKeys (snd (getCachedData k ttl now s)) \<and> consistent (snd (getCachedData k ttl now s))"
  using assms storedSize_mapDelete [of "cache s" k]
  by (auto simp: getCachedData_def mapGet_def uniqueKeys_def consistent_def Let_def
        distinct_mapDelete split: option.splits)

subsection \<open>The sweep in closed form\<close>

lemma sweepLoop_eq:
  "sweepLoop ttl now todo (n, s) =
     (n + int (length (filter (expired ttl now) todo)),
      s\<lparr>cache := filter (\<lambda>kv. fst kv \<notin> fst ` set (filter (expired ttl now) todo)) (cache s),
        totalCacheSize := totalCacheSize s - storedSize (filter (expired ttl now) todo)\<rparr>)"
proof (induction todo arbitrary: n s)
  case Nil
  then show ?case by (simp add: storedSize_def)
next
  case (Cons a todo)
  obtain key entry where a: "a = (key, entry)" by (cases a)
  show ?case
  proof (cases "expired ttl now (key, entry)")
    case True
    then have e: "now - entry_timestamp entry > ttl * 1000" by (simp add: expired_def)
    show ?thesis
      using True e by (simp add: a Cons.IH mapDelete_def storedSize_def)
  next
    case False
    then have e: "\<not> now - entry_timestamp entry > ttl * 1000" by (simp add: expired_def)
    show ?thesis
      using False e by (simp add: a Cons.IH)
  qed
qed

lemma filter_keys_distinct:
  "distinct (map fst m) \<Longrightarrow>
   filter (\<lambda>kv. fst kv \<notin> fst ` set (filter P m)) m = filter (\<lambda>kv. \<not> P kv) m"
proof -
  assume d: "distinct (map fst m)"
  have *: "\<And>kv. kv \<in> set m \<Longrightarrow> (fst kv \<notin> fst ` set (filter P m)) = (\<not> P kv)"
  proof -
    fix kv assume kv: "kv \<in> set m"
    show "(fst kv \<notin> fst ` set (filter P m)) = (\<not> P kv)"
    proof
      assume "fst kv \<notin> fst ` set (filter P m)"
      with kv show "\<not> P kv" by force
    next
      assume np: "\<not> P kv"
      show "fst kv \<notin> fst ` set (filter P m)"
      proof
        assume "fst kv \<in> fst ` set (filter P m)"
        then obtain kv' where kv': "kv' \<in> set m" "P kv'" "fst kv' = fst kv" by auto
        with d kv have "kv' = kv" by (metis eq_key_imp_eq_value prod.collapse)
        with kv' np show False by simp
      qed
    qed
  qed
  show ?thesis by (rule filter_cong [OF refl]) (rule *)
qed

lemma storedSize_filter: "storedSize (filter P m) + storedSize (filter (\<lambda>kv. \<not> P kv) m) = storedSize m"
  by (induction m) (auto simp: storedSize_def)

lemma clearExpiredCache_eq:
  assumes "uniqueKeys s"
  shows "clearExpiredCache ttl now s =
     (int (length (filter (expired ttl now) (cache s))),
      s\<lparr>cache := filter (\<lambda>kv. \<not> expired ttl now kv) (cache s),
        totalCacheSize := totalCacheSize s - storedSize (filter (expired ttl now) (cache s))\<rparr>)"
  using assms filter_keys_distinct [of "cache s" "expired ttl now"]
  by (simp add: clearExpiredCache_def sweepLoop_eq uniqueKeys_def)

lemma clearExpiredCache_inv:
  assumes "uniqueKeys s" and "consistent s"
  shows "uniqueKeys (snd (clearExpiredCache ttl now s)) \<and> consistent (snd (clearExpiredCache ttl now s))"
  using assms storedSize_filter [of "expired ttl now" "cache s"]
  by (simp add: clearExpiredCache_eq uniqueKeys_def consistent_def distinct_map_filter)

subsection \<open>Eviction drops a prefix of the insertion order\<close>

lemma evictOld_drop:
  "uniqueKeys s \<Longrightarrow>
   \<exists>n \<le> length (cache s).
     evictOld dataSize mx s =
       s\<lparr>totalCacheSize := totalCacheSize s - storedSize (take n (cache s)),
         cache := drop n (cache s)\<rparr> \<and>
     (totalCacheSize s - storedSize (take n (cache s)) + dataSize \<le> mx \<or> n = length (cache s)) \<and>
     (\<forall>m < n. totalCacheSize s - storedSize (take m (cache s)) + dataSize > mx)"
proof (induction dataSize mx s rule: evictOld.induct)
  case (1 dataSize mx s)
  show ?case
  proof (cases "totalCacheSize s + dataSize > mx \<and> length (cache s) > 0")
    case False
    then have "evictOld dataSize mx s = s" by (subst evictOld.simps) auto
    with False show ?thesis
      by (intro exI [of _ 0]) (auto simp: storedSize_def)
  next
    case True
    then obtain k v rest where c: "cache s = (k, v) # rest" by (cases "cache s") auto
    from "1.prems" have fresh: "k \<notin> fst ` set rest" and d: "distinct (map fst rest)"
      by (auto simp: uniqueKeys_def c)
    let ?s' = "s\<lparr>totalCacheSize := totalCacheSize s - entry_size v,
                  cache := mapDelete k (cache s)\<rparr>"
    have fk: "firstKey (cache s) = Some k" by (simp add: firstKey_def c)
    have mg: "mapGet (cache s) k = Some v" by (simp add: mapGet_def c)
    have md': "mapDelete k ((k, v) # rest) = rest" by (rule mapDelete_head [OF fresh])
    have md: "mapDelete k (cache s) = rest" by (simp add: c md')
    have step: "evictOld dataSize mx s = evictOld dataSize mx ?s'"
      using True by (subst evictOld.simps) (simp add: fk mg)
    have "uniqueKeys ?s'" using d by (simp add: uniqueKeys_def md)
    from "1.IH" [OF True fk mg this]
    obtain n where n: "n \<le> length rest"
      and ev: "evictOld dataSize mx ?s' =
         ?s'\<lparr>totalCacheSize := totalCacheSize ?s' - storedSize (take n (cache ?s')),
             cache := drop n (cache ?s')\<rparr>"
      and stop: "totalCacheSize ?s' - storedSize (take n (cache ?s')) + dataSize \<le> mx \<or> n = length (cache ?s')"
      and before: "\<forall>m < n. totalCacheSize ?s' - storedSize (take m (cache ?s')) + dataSize > mx"
      by (auto simp: md)
    show ?thesis
    proof (intro exI [of _ "Suc n"] conjI allI impI)
      show "Suc n \<le> length (cache s)" using n by (simp add: c)
      show "evictOld dataSize mx s =
        s\<lparr>totalCacheSize := totalCacheSize s - storedSize (take (Suc n) (cache s)),
          cache := drop (Suc n) (cache s)\<rparr>"
        using ev by (simp add: step md md' c storedSize_def)
      show "totalCacheSize s - storedSize (take (Suc n) (cache s)) + dataSize \<le> mx \<or>
            Suc n = length (cache s)"
        using stop by (auto simp: md md' c storedSize_def)
    next
      fix m assume m: "m < Suc n"
      show "mx < totalCacheSize s - storedSize (take m (cache s)) + dataSize"
      proof (cases m)
        case 0
        with True show ?thesis by (simp add: storedSize_def)
      next
        case (Suc m')
        with m before have "mx < totalCacheSize ?s' - storedSize (take m' (cache ?s')) + dataSize"
          by simp
        then show ?thesis by (simp add: Suc md md' c storedSize_def)
      qed
    qed
  qed
qed


lemma evictOld_uniqueKeys: "uniqueKeys s \<Longrightarrow> uniqueKeys (evictOld dataSize mx s)"
proof -
  assume u: "uniqueKeys s"
  from evictOld_drop [OF u, of dataSize mx] obtain n where
    "evictOld dataSize mx s =
       s\<lparr>totalCacheSize := totalCacheSize s - storedSize (take n (cache s)),
         cache := drop n (cache s)\<rparr>" by blast
  then show ?thesis
    using u by (simp add: uniqueKeys_def drop_map [symmetric] distinct_drop)
qed

lemma cachePageData_uniqueKeys: "uniqueKeys s \<Longrightarrow> uniqueKeys (cachePageData k d mx now s)"
  using evictOld_uniqueKeys [of s "dataSizeOf d" mx]
  by (simp add: cachePageData_def Let_def uniqueKeys_def distinct_mapSet)

lemma applyOp_uniqueKeys: "uniqueKeys s \<Longrightarrow> uniqueKeys (applyOp s op)"
proof (cases op)
  case (Put k d mx now)
  assume "uniqueKeys s"
  then show ?thesis by (simp add: Put cachePageData_uniqueKeys)
next
  case (Get k ttl now)
  assume "uniqueKeys s"
  then show ?thesis
    by (auto simp: Get getCachedData_def Let_def uniqueKeys_def distinct_mapDelete split: option.splits)
next
  case (Sweep ttl now)
  assume "uniqueKeys s"
  then show ?thesis
    by (simp add: Sweep clearExpiredCache_eq) (simp add: uniqueKeys_def distinct_map_filter)
qed

lemma runOps_uniqueKeys: "uniqueKeys s \<Longrightarrow> uniqueKeys (runOps ops s)"
  unfolding runOps_def
  by (induction ops arbitrary: s) (simp_all add: applyOp_uniqueKeys)

lemma cachePageData_fresh_inv:
  assumes "uniqueKeys s" and "consistent s" and "mapGet (cache s) k = None"
  shows "consistent (cachePageData k d mx now s)"
proof -
  from evictOld_drop [OF assms(1), of "dataSizeOf d" mx] obtain n where
    ev: "evictOld (dataSizeOf d) mx s =
       s\<lparr>totalCacheSize := totalCacheSize s - storedSize (take n (cache s)),
         cache := drop n (cache s)\<rparr>" by blast
  from assms(3) have "k \<notin> fst ` set (cache s)"
    by (simp add: mapGet_def map_of_eq_None_iff)
  then have "k \<notin> fst ` set (drop n (cache s))"
    using set_drop_subset [of n "cache s"] by blast
  then have ms: "mapSet k v (drop n (cache s)) = drop n (cache s) @ [(k, v)]" for v
    by (rule mapSet_fresh)
  have "storedSize (take n (cache s)) + storedSize (drop n (cache s)) = storedSize (cache s)"
    using storedSize_append [of "take n (cache s)" "drop n (cache s)"] by simp
  then show ?thesis
    using assms(2)
    by (simp add: cachePageData_def Let_def ev ms consistent_def storedSize_append)
       (simp add: storedSize_def)
qed

subsection \<open>Running total and stored sizes\<close>

text \<open>
  Claim C1. The running total is meant to equal the sum of the recorded sizes of the stored
  entries after every sequence of puts, lookups and sweeps. Lookups, sweeps and puts of a
  path that is not stored keep this (\<open>getCachedData_inv\<close>, \<open>clearExpiredCache_inv\<close>,
  \<open>cachePageData_fresh_inv\<close>). A second put for a stored path does not: \<^verbatim>\<open>cache.set\<close>
  replaces the entry and \<^verbatim>\<open>totalCacheSize += dataSize\<close> adds the new size without
  taking off the old one. Two puts of the 100-byte page \<open>pageA\<close> under one path leave a
  single entry of 100 bytes and a running total of 200.
\<close>

theorem cache_total_double_put:
  "runOps [Put ''/a'' pageA 1000 0, Put ''/a'' pageA 1000 5] emptyCache =
     \<lparr>cache = [(''/a'', \<lparr>entry_data = pageA, entry_timestamp = 5, entry_size = 100\<rparr>)],
      totalCacheSize = 200\<rparr> \<and>
   storedSize (cache (runOps [Put ''/a'' pageA 1000 0, Put ''/a'' pageA 1000 5] emptyCache)) = 100 \<and>
   \<not> consistent (runOps [Put ''/a'' pageA 1000 0, Put ''/a'' pageA 1000 5] emptyCache)"
proof -
  have "runOps [Put ''/a'' pageA 1000 0, Put ''/a'' pageA 1000 5] emptyCache =
     \<lparr>cache = [(''/a'', \<lparr>entry_data = pageA, entry_timestamp = 5, entry_size = 100\<rparr>)],
      totalCacheSize = 200\<rparr>"
    by (simp add: runOps_def putA) (simp add: cachePageData_def dataSizeOf_pageA evictOld.simps)
  then show ?thesis by (simp add: consistent_def storedSize_def)
qed

subsection \<open>First in, first out\<close>

text \<open>
  Claim C2. A put of a path that is not stored evicts entries in insertion order, oldest
  first: the cache afterwards is the old one without its first \<open>n\<close> entries, followed by
  the new entry; the running total is the old one less the sizes of these \<open>n\<close> entries
  plus the new size; eviction has stopped because the total with the new entry fits the
  maximum or the cache is empty; and it has not stopped earlier, since after fewer than
  \<open>n\<close> evictions the total with the new entry is over the maximum. With A then B of 100
  bytes each and a maximum of 150, A is evicted, B remains and the total is 100, as the
  instance after the theorem shows. A hit leaves the cache as it is
  (\<open>getCachedData_hit_state\<close>), so the order is that of insertion and not of use.
\<close>

theorem cachePageData_fifo:
  assumes "uniqueKeys s" and "mapGet (cache s) k = None"
  shows "\<exists>n \<le> length (cache s).
     cachePageData k d mx now s =
       \<lparr>cache = drop n (cache s) @
                 [(k, \<lparr>entry_data = d, entry_timestamp = now, entry_size = dataSizeOf d\<rparr>)],
        totalCacheSize = totalCacheSize s - storedSize (take n (cache s)) + dataSizeOf d\<rparr> \<and>
     (totalCacheSize s - storedSize (take n (cache s)) + dataSizeOf d \<le> mx \<or> n = length (cache s)) \<and>
     (\<forall>m < n. totalCacheSize s - storedSize (take m (cache s)) + dataSizeOf d > mx)"
proof -
  from evictOld_drop [OF assms(1), of "dataSizeOf d" mx] obtain n where
    n: "n \<le> length (cache s)" and
    ev: "evictOld (dataSizeOf d) mx s =
       s\<lparr>totalCacheSize := totalCacheSize s - storedSize (take n (cache s)),
         cache := drop n (cache s)\<rparr>" and
    stop: "totalCacheSize s - storedSize (take n (cache s)) + dataSizeOf d \<le> mx \<or> n = length (cache s)" and
    before: "\<forall>m < n. totalCacheSize s - storedSize (take m (cache s)) + dataSizeOf d > mx"
    by blast
  from assms(2) have "k \<notin> fst ` set (cache s)"
    by (simp add: mapGet_def map_of_eq_None_iff)
  then have "k \<notin> fst ` set (drop n (cache s))"
    using set_drop_subset [of n "cache s"] by blast
  then have ms: "mapSet k v (drop n (cache s)) = drop n (cache s) @ [(k, v)]" for v
    by (rule mapSet_fresh)
  have "cachePageData k d mx now s =
       \<lparr>cache = drop n (cache s) @
                 [(k, \<lparr>entry_data = d, entry_timestamp = now, entry_size = dataSizeOf d\<rparr>)],
        totalCacheSize = totalCacheSize s - storedSize (take n (cache s)) + dataSizeOf d\<rparr>"
    by (simp add: cachePageData_def Let_def ev ms)
  with n stop before show ?thesis by blast
qed

theorem cachePageData_fifo_witness:
  "uniqueKeys (cachePageData ''/a'' pageA 150 0 emptyCache) \<and>
   mapGet (cache (cachePageData ''/a'' pageA 150 0 emptyCache)) ''/b'' = None \<and>
   cachePageData ''/b'' pageB 150 1 (cachePageData ''/a'' pageA 150 0 emptyCache) =
     \<lparr>cache = [(''/b'', \<lparr>entry_data = pageB, entry_timestamp = 1, entry_size = 100\<rparr>)],
      totalCacheSize = 100\<rparr>"
proof -
  let ?sA = "cachePageData ''/a'' pageA 150 0 emptyCache"
  have u: "uniqueKeys ?sA" by (simp add: putA uniqueKeys_def)
  have f: "mapGet (cache ?sA) ''/b'' = None" by (simp add: putA mapGet_def)
  from cachePageData_fifo [OF u f, of pageB 150 1] obtain n where
    n: "n \<le> length (cache ?sA)" and
    r: "cachePageData ''/b'' pageB 150 1 ?sA =
       \<lparr>cache = drop n (cache ?sA) @
                 [(''/b'', \<lparr>entry_data = pageB, entry_timestamp = 1, entry_size = dataSizeOf pageB\<rparr>)],
        totalCacheSize = totalCacheSize ?sA - storedSize (take n (cache ?sA)) + dataSizeOf pageB\<rparr>" and
    stop: "totalCacheSize ?sA - storedSize (take n (cache ?sA)) + dataSizeOf pageB \<le> 150 \<or>
           n = length (cache ?sA)"
    by blast
  from n have "n = 0 \<or> n = 1" by (auto simp: putA)
  moreover have "n \<noteq> 0"
  proof
    assume "n = 0"
    with stop show False by (simp add: putA dataSizeOf_pageB storedSize_def)
  qed
  ultimately have "n = 1" by simp
  with r have "cachePageData ''/b'' pageB 150 1 ?sA =
     \<lparr>cache = [(''/b'', \<lparr>entry_data = pageB, entry_timestamp = 1, entry_size = 100\<rparr>)],
      totalCacheSize = 100\<rparr>"
    by (simp add: putA dataSizeOf_pageB storedSize_def)
  with u f show ?thesis by simp
qed

subsection \<open>Expiry at lookup\<close>

text \<open>
  Claim C3, as the code has it. For a stored entry, a lookup is a hit exactly when the
  entry's age \<open>now - timestamp\<close> is at most \<open>ttl * 1000\<close>: the code tests
  \<^verbatim>\<open>Date.now() - cachedEntry.timestamp > cacheDuration * 1000\<close> for expiry, so an entry
  whose age equals the duration is still served. When the age is greater, the lookup is a
  miss, the entry is deleted (the path is no longer stored, one entry fewer) and its size
  is taken off the running total and off the stored sizes.
\<close>

theorem getCachedData_ttl:
  assumes "uniqueKeys s" and "mapGet (cache s) k = Some e"
  shows "(now - entry_timestamp e \<le> ttl * 1000 \<longrightarrow>
            getCachedData k ttl now s = (Some (entry_data e), s)) \<and>
         (now - entry_timestamp e > ttl * 1000 \<longrightarrow>
            getCachedData k ttl now s =
              (None, s\<lparr>cache := mapDelete k (cache s),
                       totalCacheSize := totalCacheSize s - entry_size e\<rparr>) \<and>
            mapGet (mapDelete k (cache s)) k = None \<and>
            int (length (mapDelete k (cache s))) = int (length (cache s)) - 1 \<and>
            storedSize (mapDelete k (cache s)) = storedSize (cache s) - entry_size e)"
proof (intro conjI impI)
  assume "now - entry_timestamp e \<le> ttl * 1000"
  then show "getCachedData k ttl now s = (Some (entry_data e), s)"
    using assms(2) by (simp add: getCachedData_def)
next
  assume "now - entry_timestamp e > ttl * 1000"
  then show "getCachedData k ttl now s =
              (None, s\<lparr>cache := mapDelete k (cache s),
                       totalCacheSize := totalCacheSize s - entry_size e\<rparr>)"
    using assms(2) by (simp add: getCachedData_def)
next
  show "mapGet (mapDelete k (cache s)) k = None"
    by (auto simp: mapGet_def mapDelete_def map_of_eq_None_iff)
next
  show "storedSize (mapDelete k (cache s)) = storedSize (cache s) - entry_size e"
    using assms by (simp add: storedSize_mapDelete uniqueKeys_def mapGet_def)
next
  have "distinct (map fst m) \<Longrightarrow> map_of m k = Some e \<Longrightarrow>
        int (length (mapDelete k m)) = int (length m) - 1" for m
  proof (induction m)
    case Nil
    then show ?case by simp
  next
    case (Cons a m)
    obtain k' v' where a: "a = (k', v')" by (cases a)
    show ?case
    proof (cases "k' = k")
      case True
      with Cons.prems have "k \<notin> fst ` set m" by (auto simp: a)
      then show ?thesis using mapDelete_head [of k m v'] by (simp add: a True)
    next
      case False
      with Cons show ?thesis by (simp add: a mapDelete_def)
    qed
  qed
  then show "int (length (mapDelete k (cache s))) = int (length (cache s)) - 1"
    using assms by (simp add: uniqueKeys_def mapGet_def)
qed

theorem getCachedData_ttl_witness:
  "uniqueKeys (cachePageData ''/a'' pageA 1000 0 emptyCache) \<and>
   mapGet (cache (cachePageData ''/a'' pageA 1000 0 emptyCache)) ''/a'' =
     Some \<lparr>entry_data = pageA, entry_timestamp = 0, entry_size = 100\<rparr> \<and>
   getCachedData ''/a'' 60 60000 (cachePageData ''/a'' pageA 1000 0 emptyCache) =
     (Some pageA, cachePageData ''/a'' pageA 1000 0 emptyCache) \<and>
   getCachedData ''/a'' 60 60001 (cachePageData ''/a'' pageA 1000 0 emptyCache) =
     (None, \<lparr>cache = [], totalCacheSize = 0\<rparr>)"
proof -
  let ?sA = "cachePageData ''/a'' pageA 1000 0 emptyCache"
  let ?e = "\<lparr>entry_data = pageA, entry_timestamp = 0, entry_size = 100\<rparr>"
  have u: "uniqueKeys ?sA" by (simp add: putA uniqueKeys_def)
  have g: "mapGet (cache ?sA) ''/a'' = Some ?e" by (simp add: putA mapGet_def)
  have hit: "getCachedData ''/a'' 60 60000 ?sA = (Some pageA, ?sA)"
    using getCachedData_ttl [OF u g, of 60000 60] by simp
  have "getCachedData ''/a'' 60 60001 ?sA =
      (None, ?sA\<lparr>cache := mapDelete ''/a'' (cache ?sA),
                totalCacheSize := totalCacheSize ?sA - entry_size ?e\<rparr>)"
    using getCachedData_ttl [OF u g, of 60001 60] by simp
  then have miss: "getCachedData ''/a'' 60 60001 ?sA = (None, \<lparr>cache = [], totalCacheSize = 0\<rparr>)"
    by (simp add: putA mapDelete_def)
  from u g hit miss show ?thesis by simp
qed

text \<open>
  Claim C3 as stated fails at the boundary: 60 seconds after the put the age is not
  strictly less than the duration of 60 seconds, and the lookup still returns the page.
\<close>

theorem getCachedData_ttl_counterexample:
  "\<not> (60000 - 0 < (60::int) * 1000) \<and>
   fst (getCachedData ''/a'' 60 60000 (cachePageData ''/a'' pageA 1000 0 emptyCache)) = Some pageA"
  by (simp add: putA getCachedData_def mapGet_def)

section \<open>Properties of the path classifier\<close>


lemma startsWith_iff: "startsWith s p \<longleftrightarrow> (\<exists>t. s = p @ t)"
  by (induction s p rule: startsWith.induct) auto

lemma endsWith_iff: "endsWith s p \<longleftrightarrow> (\<exists>t. s = t @ p)"
proof -
  have "endsWith s p \<longleftrightarrow> (\<exists>t. rev s = rev p @ t)"
    by (simp add: endsWith_def startsWith_iff)
  also have "\<dots> \<longleftrightarrow> (\<exists>t. s = t @ p)"
  proof
    assume "\<exists>t. rev s = rev p @ t"
    then obtain t where "rev s = rev p @ t" ..
    then have "s = rev t @ p" by (simp add: rev_swap)
    then show "\<exists>t. s = t @ p" ..
  next
    assume "\<exists>t. s = t @ p"
    then obtain t where "s = t @ p" ..
    then have "rev s = rev p @ rev t" by simp
    then show "\<exists>t. rev s = rev p @ t" ..
  qed
  finally show ?thesis .
qed

text \<open>
  Claim C4, as the code has it. A pattern ending in \<^verbatim>\<open>/*\<close> loses both characters
  (\<^verbatim>\<open>slice(0, -2)\<close>), so a path is excluded by it exactly when the path starts with the
  pattern without its trailing \<^verbatim>\<open>/*\<close>, the prefix without the slash; a pattern not
  ending in \<^verbatim>\<open>/*\<close> excludes exactly the equal path; a list excludes a path when one of
  its patterns does. With the pattern \<^verbatim>\<open>/admin/*\<close> the paths \<^verbatim>\<open>/admin/x\<close>,
  \<^verbatim>\<open>/admin/x/y\<close> and \<^verbatim>\<open>/admin\<close> itself are excluded.
\<close>

theorem isPathExcluded_wildcard:
  "(isPathExcluded p [pre @ ''/*''] \<longleftrightarrow> (\<exists>t. p = pre @ t)) \<and>
   (\<not> (\<exists>pre'. pat = pre' @ ''/*'') \<longrightarrow> (isPathExcluded p [pat] \<longleftrightarrow> p = pat)) \<and>
   (isPathExcluded p pats \<longleftrightarrow> (\<exists>x \<in> set pats. isPathExcluded p [x])) \<and>
   isPathExcluded ''/admin/x'' [''/admin/*''] \<and>
   isPathExcluded ''/admin/x/y'' [''/admin/*''] \<and>
   isPathExcluded ''/admin'' [''/admin/*'']"
proof (intro conjI impI)
  have e: "endsWith (pre @ ''/*'') ''/*''" by (simp add: endsWith_iff)
  have "sliceEnd (pre @ ''/*'') 2 = pre" by (simp add: sliceEnd_def)
  with e show "isPathExcluded p [pre @ ''/*''] \<longleftrightarrow> (\<exists>t. p = pre @ t)"
    by (simp add: isPathExcluded_def matchesExclude_def startsWith_iff)
next
  assume "\<not> (\<exists>pre'. pat = pre' @ ''/*'')"
  then have "\<not> endsWith pat ''/*''" by (simp add: endsWith_iff)
  then show "isPathExcluded p [pat] \<longleftrightarrow> p = pat"
    by (simp add: isPathExcluded_def matchesExclude_def)
next
  show "isPathExcluded p pats \<longleftrightarrow> (\<exists>x \<in> set pats. isPathExcluded p [x])"
    by (simp add: isPathExcluded_def list_ex_iff)
next
  show "isPathExcluded ''/admin/x'' [''/admin/*'']"
    by (simp add: isPathExcluded_def matchesExclude_def endsWith_def sliceEnd_def)
  show "isPathExcluded ''/admin/x/y'' [''/admin/*'']"
    by (simp add: isPathExcluded_def matchesExclude_def endsWith_def sliceEnd_def)
  show "isPathExcluded ''/admin'' [''/admin/*'']"
    by (simp add: isPathExcluded_def matchesExclude_def endsWith_def sliceEnd_def)
qed

theorem isPathExcluded_wildcard_witness:
  "\<not> (\<exists>pre'. ''/private'' = pre' @ ''/*'') \<and>
   isPathExcluded ''/private'' [''/private''] \<and>
   \<not> isPathExcluded ''/private/x'' [''/private''] \<and>
   isPathExcluded ''/administrator'' [''/admin/*''] \<and>
   isPathExcluded ''/admin/x'' [''/private'', ''/admin/*'']"
proof -
  have n: "\<not> (\<exists>pre'. ''/private'' = pre' @ ''/*'')"
  proof
    assume "\<exists>pre'. ''/private'' = pre' @ ''/*''"
    then have "endsWith ''/private'' ''/*''" by (simp only: endsWith_iff)
    then show False by (simp add: endsWith_def)
  qed
  have a: "isPathExcluded ''/private'' [''/private'']"
    using isPathExcluded_wildcard [of "''/private''" "''/admin''" "''/private''" "[]"] n by blast
  have b: "\<not> isPathExcluded ''/private/x'' [''/private'']"
    using isPathExcluded_wildcard [of "''/private/x''" "''/admin''" "''/private''" "[]"] n by simp
  have "isPathExcluded ''/administrator'' [''/admin'' @ ''/*'']"
    using isPathExcluded_wildcard [of "''/administrator''" "''/admin''" "''/private''" "[]"] by simp
  then have c: "isPathExcluded ''/administrator'' [''/admin/*'']" by simp
  have d: "isPathExcluded ''/admin/x'' [''/private'', ''/admin/*'']"
    using isPathExcluded_wildcard [of "''/admin/x''" "''/admin''" "''/private''" "[''/private'', ''/admin/*'']"]
    by simp
  from n a b c d show ?thesis by simp
qed

text \<open>
  Claim C4 as stated fails: \<^verbatim>\<open>/admin\<close> does not start with \<^verbatim>\<open>/admin/\<close>, the pattern
  less its \<^verbatim>\<open>*\<close>, and is excluded all the same.
\<close>

theorem isPathExcluded_wildcard_counterexample:
  "isPathExcluded ''/admin'' [''/admin/*''] \<and> \<not> startsWith ''/admin'' ''/admin/''"
  by (simp add: isPathExcluded_def matchesExclude_def endsWith_def sliceEnd_def)

section \<open>Properties of the pipeline\<close>

subsection \<open>The demonstration scenario\<close>

lemma extract_demo:
  "extractPageData demoExternals demoMarkup ''/about'' receiver 0 = Inr (demoPage receiver)"
  by (simp add: extractPageData_def demoExternals_def demoDoc_def demoPage_def selectTags_def
      allElements_def selText_def selFirst_def selAttr_def selectMetaDescription_def
      pushHeading_def propTagName_def toUpperChar_def parseInt_def digitValue_def trim_def
      isWhiteSpace_def) (simp add: demoMarkup_def)

lemma size_demo: "dataSizeOf (demoPage (Some ''A'')) = 405"
  by (simp add: dataSizeOf_def JSON_stringify_def demoPage_def demoMarkup_def jsonMember_def
      jsonString_def jsonEscape_def jsonNumber_def jsonArray_def jsonHeading_def showInt_def
      showNat.simps digitChar_def)

lemma url_demo:
  "constructPageUrl demoExternals (demoRequest p) ''/about'' = Inr ''http://example.com/about''"
  by (simp add: constructPageUrl_def demoExternals_def demoRequest_def)

lemma fetch_demo:
  "fetchPageContent demoExternals ''http://example.com/about'' 5000 = Some (Inr demoMarkup)"
  by (simp add: fetchPageContent_def fetchTry_def awaitFetch_def awaitText_def beforeTimer_def
      demoExternals_def responseOk_def)

lemma first_request:
  "getPageData demoExternals demoClock (demoRequest ''/api/about'') ''/about''
     (demoOptions (Some ''A'')) emptyCache =
   (Some (Inr (demoPage (Some ''A''))),
    \<lparr>cacheAfter =
       \<lparr>cache = [(''/about'', \<lparr>entry_data = demoPage (Some ''A''), entry_timestamp = 0,
                                entry_size = 405\<rparr>)],
        totalCacheSize = 405\<rparr>,
     fetched = [''http://example.com/about'']\<rparr>)"
proof -
  have l: "getCachedData ''/about'' 3600 0 emptyCache = (None, emptyCache)"
    by (simp add: getCachedData_def mapGet_def emptyCache_def)
  have c: "cachePageData ''/about'' (demoPage (Some ''A'')) 1048576 0 emptyCache =
       \<lparr>cache = [(''/about'', \<lparr>entry_data = demoPage (Some ''A''), entry_timestamp = 0,
                                entry_size = 405\<rparr>)],
        totalCacheSize = 405\<rparr>"
    by (simp add: cachePageData_def size_demo evictOld_empty) (simp add: emptyCache_def)
  show ?thesis
    by (simp add: getPageData_def demoOptions_def demoClock_def l url_demo fetch_demo
        extract_demo shouldCacheData_def size_demo c)
qed

lemma cacheWithA_eq:
  "cacheWithA =
     \<lparr>cache = [(''/about'', \<lparr>entry_data = demoPage (Some ''A''), entry_timestamp = 0,
                              entry_size = 405\<rparr>)],
      totalCacheSize = 405\<rparr>"
  by (simp add: cacheWithA_def first_request)

subsection \<open>Receiver overlay on a hit\<close>

lemma getCachedData_hit_state:
  "fst (getCachedData k ttl now s) = Some d \<Longrightarrow> snd (getCachedData k ttl now s) = s"
  by (auto simp: getCachedData_def Let_def split: option.splits if_splits)

text \<open>
  Claim C5. On a cache hit \<^verbatim>\<open>getPageData\<close> returns, and returns the cached page data with the
  receiver of the current request's options written over the cached one, touches neither
  the cache nor the network, and so every page it returns on a hit carries the current
  receiver. A page cached under receiver A and hit by a request configured with receiver B
  is returned with receiver B, as the instance after the theorem shows.
\<close>

theorem getPageData_overlay:
  assumes "opt_enableCache options"
    and "fst (getCachedData pagePath (opt_cacheDuration options) (tLookup clock) s) = Some cachedData"
  shows "getPageData ext clock request pagePath options s =
           (Some (Inr (cachedData\<lparr>receiverUsername := opt_receiverUsername options\<rparr>)),
            \<lparr>cacheAfter = s, fetched = []\<rparr>) \<and>
         (\<forall>r. fst (getPageData ext clock request pagePath options s) = Some (Inr r) \<longrightarrow>
              receiverUsername r = opt_receiverUsername options)"
  using assms getCachedData_hit_state [OF assms(2)]
  by (simp add: getPageData_def Let_def)

theorem getPageData_overlay_witness:
  "opt_enableCache (demoOptions (Some ''B'')) \<and>
   fst (getCachedData ''/about'' 3600 1000 cacheWithA) = Some (demoPage (Some ''A'')) \<and>
   receiverUsername (demoPage (Some ''A'')) = Some ''A'' \<and>
   getPageData demoExternals (demoClock\<lparr>tLookup := 1000\<rparr>) (demoRequest ''/api/about'') ''/about''
     (demoOptions (Some ''B'')) cacheWithA =
   (Some (Inr (demoPage (Some ''B''))), \<lparr>cacheAfter = cacheWithA, fetched = []\<rparr>) \<and>
   receiverUsername (demoPage (Some ''B'')) = Some ''B''"
proof -
  have e: "opt_enableCache (demoOptions (Some ''B''))" by (simp add: demoOptions_def)
  have h: "fst (getCachedData ''/about'' (opt_cacheDuration (demoOptions (Some ''B'')))
                  (tLookup (demoClock\<lparr>tLookup := 1000\<rparr>)) cacheWithA) = Some (demoPage (Some ''A''))"
    by (simp add: demoOptions_def cacheWithA_eq getCachedData_def mapGet_def)
  have o: "demoPage (Some ''A'')\<lparr>receiverUsername := opt_receiverUsername (demoOptions (Some ''B''))\<rparr>
             = demoPage (Some ''B'')"
    by (simp add: demoPage_def demoOptions_def)
  from getPageData_overlay [OF e h, of demoExternals "demoRequest ''/api/about''"]
  have "getPageData demoExternals (demoClock\<lparr>tLookup := 1000\<rparr>) (demoRequest ''/api/about'')
          ''/about'' (demoOptions (Some ''B'')) cacheWithA =
        (Some (Inr (demoPage (Some ''B''))), \<lparr>cacheAfter = cacheWithA, fetched = []\<rparr>)"
    by (simp add: o)
  moreover have "fst (getCachedData ''/about'' 3600 1000 cacheWithA) = Some (demoPage (Some ''A''))"
    using h by (simp add: demoOptions_def)
  ultimately show ?thesis using e by (simp add: demoPage_def)
qed

subsection \<open>Rejected paths\<close>


lemma dangerous_iff:
  "list_ex (\<lambda>c. c \<in> set dangerousChars) p \<longleftrightarrow>
   (\<exists>c \<in> set p. c \<in> {CHR ''<'', CHR ''>'', CHR '':'', CHR 0x22, CHR ''|'', CHR ''?'', CHR ''*''})"
  by (simp add: list_ex_iff dangerousChars_def)

lemma not_valid:
  assumes "(\<exists>c \<in> set p. c \<in> {CHR ''<'', CHR ''>'', CHR '':'', CHR 0x22, CHR ''|'', CHR ''?'', CHR ''*''}) \<or>
         length p > 2000 \<or> \<not> startsWith p ''/''"
  shows "\<not> isValidPath p"
  unfolding isValidPath_def dangerous_iff using assms by linarith

text \<open>
  Claim C6. When the middleware is enabled and the request path starts with the prefix,
  and the extracted content path contains one of the characters \<^verbatim>\<open>< > : " | ? *\<close>, or
  is longer than 2000 characters, or does not start with \<^verbatim>\<open>/\<close>, the answer is the error
  response with status 400 and type \<^verbatim>\<open>INVALID_CONFIG\<close>; the cache is unchanged and
  nothing is requested from the network.
\<close>

theorem middleware_invalid_path:
  assumes "enabled config"
    and "startsWith (pathname request) (apiPrefix config)"
    and "(\<exists>c \<in> set (extractPagePath (pathname request) (apiPrefix config)).
            c \<in> {CHR ''<'', CHR ''>'', CHR '':'', CHR 0x22, CHR ''|'', CHR ''?'', CHR ''*''}) \<or>
         length (extractPagePath (pathname request) (apiPrefix config)) > 2000 \<or>
         \<not> startsWith (extractPagePath (pathname request) (apiPrefix config)) ''/''"
  shows "middleware ext clock config request s =
           (Some (ErrorResponse ''Invalid path format'' INVALID_CONFIG
                    (toISOString ext (tError clock)) 400),
            \<lparr>cacheAfter = s, fetched = []\<rparr>)"
proof -
  have nv: "\<not> isValidPath (extractPagePath (pathname request) (apiPrefix config))"
    by (rule not_valid [OF assms(3)])
  show ?thesis
    unfolding middleware_def Let_def createErrorResponse_def
    by (simp only: assms(1) assms(2) nv not_True_eq_False not_False_eq_True if_True if_False)
qed

lemma validate_empty: "validateAndNormalizeConfig emptyConfig = Inr (normalizedConfig emptyConfig)"
  by (simp add: validateAndNormalizeConfig_def validationErrors_def checkApiPrefix_def
      checkCacheDuration_def checkExcludePaths_def checkAdditionalHeaders_def emptyConfig_def)

lemma normalized_empty: "normalizedConfig emptyConfig =
  \<lparr>enabled = True, apiPrefix = ''/api'', excludePaths = [], additionalHeaders = Obj [],
   enableCache = False, cacheDuration = 3600, cfg_receiverUsername = None,
   maxCacheSize = 1048576, requestTimeout = 5000\<rparr>"
  by (simp add: normalizedConfig_def emptyConfig_def DEFAULT_API_PREFIX_def DEFAULT_CACHE_DURATION_def
      DEFAULT_MAX_CACHE_SIZE_def DEFAULT_REQUEST_TIMEOUT_def)

lemma extract_star: "extractPagePath ''/api/a*b'' ''/api'' = ''/a*b''"
  by (simp add: extractPagePath_def)

lemma extract_long:
  "extractPagePath (''/api/'' @ replicate 2000 (CHR ''a'')) ''/api'' = ''/'' @ replicate 2000 (CHR ''a'')"
  by (simp add: extractPagePath_def)

lemma extractPagePath_slash: "startsWith (extractPagePath p pfx) ''/''"
  by (simp add: extractPagePath_def Let_def)

theorem middleware_invalid_path_witness:
  "enabled (normalizedConfig emptyConfig) \<and>
   startsWith (pathname (demoRequest ''/api/a*b'')) (apiPrefix (normalizedConfig emptyConfig)) \<and>
   CHR ''*'' \<in> set (extractPagePath ''/api/a*b'' ''/api'') \<and>
   middleware demoExternals demoClock (normalizedConfig emptyConfig) (demoRequest ''/api/a*b'') emptyCache =
     (Some (ErrorResponse ''Invalid path format'' INVALID_CONFIG ''1970-01-01T00:00:00.000Z'' 400),
      \<lparr>cacheAfter = emptyCache, fetched = []\<rparr>) \<and>
   length (extractPagePath (''/api/'' @ replicate 2000 (CHR ''a'')) ''/api'') = 2001 \<and>
   middleware demoExternals demoClock (normalizedConfig emptyConfig)
       (demoRequest (''/api/'' @ replicate 2000 (CHR ''a''))) emptyCache =
     (Some (ErrorResponse ''Invalid path format'' INVALID_CONFIG ''1970-01-01T00:00:00.000Z'' 400),
      \<lparr>cacheAfter = emptyCache, fetched = []\<rparr>)"
proof -
  let ?cfg = "normalizedConfig emptyConfig"
  have e: "enabled ?cfg" by (simp add: normalized_empty)
  have p1: "startsWith (pathname (demoRequest ''/api/a*b'')) (apiPrefix ?cfg)"
    by (simp add: normalized_empty demoRequest_def)
  have x1: "extractPagePath (pathname (demoRequest ''/api/a*b'')) (apiPrefix ?cfg) = ''/a*b''"
    by (simp add: normalized_empty demoRequest_def extract_star)
  have b1: "(\<exists>c \<in> set (extractPagePath (pathname (demoRequest ''/api/a*b'')) (apiPrefix ?cfg)).
            c \<in> {CHR ''<'', CHR ''>'', CHR '':'', CHR 0x22, CHR ''|'', CHR ''?'', CHR ''*''}) \<or>
         length (extractPagePath (pathname (demoRequest ''/api/a*b'')) (apiPrefix ?cfg)) > 2000 \<or>
         \<not> startsWith (extractPagePath (pathname (demoRequest ''/api/a*b'')) (apiPrefix ?cfg)) ''/''"
    unfolding x1 by simp
  have r1: "middleware demoExternals demoClock ?cfg (demoRequest ''/api/a*b'') emptyCache =
     (Some (ErrorResponse ''Invalid path format'' INVALID_CONFIG ''1970-01-01T00:00:00.000Z'' 400),
      \<lparr>cacheAfter = emptyCache, fetched = []\<rparr>)"
    using middleware_invalid_path [OF e p1 b1, of demoExternals demoClock emptyCache]
    by (simp add: demoExternals_def)
  let ?long = "''/api/'' @ replicate 2000 (CHR ''a'')"
  have p2: "startsWith (pathname (demoRequest ?long)) (apiPrefix ?cfg)"
    by (simp add: normalized_empty demoRequest_def)
  have x2: "extractPagePath (pathname (demoRequest ?long)) (apiPrefix ?cfg) = ''/'' @ replicate 2000 (CHR ''a'')"
    using extract_long by (simp add: normalized_empty demoRequest_def)
  have b2: "(\<exists>c \<in> set (extractPagePath (pathname (demoRequest ?long)) (apiPrefix ?cfg)).
            c \<in> {CHR ''<'', CHR ''>'', CHR '':'', CHR 0x22, CHR ''|'', CHR ''?'', CHR ''*''}) \<or>
         length (extractPagePath (pathname (demoRequest ?long)) (apiPrefix ?cfg)) > 2000 \<or>
         \<not> startsWith (extractPagePath (pathname (demoRequest ?long)) (apiPrefix ?cfg)) ''/''"
    unfolding x2 by simp
  have r2: "middleware demoExternals demoClock ?cfg (demoRequest ?long) emptyCache =
     (Some (ErrorResponse ''Invalid path format'' INVALID_CONFIG ''1970-01-01T00:00:00.000Z'' 400),
      \<lparr>cacheAfter = emptyCache, fetched = []\<rparr>)"
    using middleware_invalid_path [OF e p2 b2, of demoExternals demoClock emptyCache]
    by (simp add: demoExternals_def)
  have l2: "length (extractPagePath ?long ''/api'') = 2001"
    using extract_long by simp
  from e p1 r1 r2 l2 show ?thesis by (simp add: extract_star)
qed

subsection \<open>Additional headers\<close>

text \<open>
  Header names are matched without regard to case, so a configured \<open>Content-Type\<close> replaces
  the one the JSON response starts with; values are stripped of surrounding white space; an
  entry whose value is not a string is skipped.
\<close>

lemma headers_applied:
  "applyAdditionalHeaders [(''content-type'', ''application/json'')]
     (Obj [(''Content-Type'', Str ''text/plain''), (''X-API-Version'', Str '' 1.0 ''),
           (''x-count'', Num (Finite 1))]) =
   Inr [(''content-type'', ''text/plain''), (''x-api-version'', ''1.0'')]"
  by (simp add: applyAdditionalHeaders_def headersSet_def validHeaderName_def tokenChars_def
      validHeaderValue_def normalizeHeaderValue_def isHttpWhiteSpace_def toLowerChar_def)

text \<open>
  A name that is not a token makes \<open>Headers.set\<close> throw. The page has been fetched by then;
  the handler of the middleware answers with status 500.
\<close>

lemma headers_rejected:
  "applyAdditionalHeaders [(''content-type'', ''application/json'')]
     (Obj [(''X Version'', Str ''1.0'')]) = Inl ''TypeError''"
  by (simp add: applyAdditionalHeaders_def headersSet_def validHeaderName_def tokenChars_def
      validHeaderValue_def normalizeHeaderValue_def isHttpWhiteSpace_def toLowerChar_def)

lemma middleware_header_error:
  "middleware demoExternals demoClock (headerConfig [(''X Version'', Str ''1.0'')])
     (demoRequest ''/api/about'') emptyCache =
   (Some (ErrorResponse ''An unexpected error occurred'' FETCH_ERROR ''1970-01-01T00:00:00.000Z'' 500),
    \<lparr>cacheAfter = emptyCache, fetched = [''http://example.com/about'']\<rparr>)"
proof -
  have x: "extractPagePath ''/api/about'' ''/api'' = ''/about''"
    by (simp add: extractPagePath_def)
  have v: "isValidPath ''/about''"
    by (simp add: isValidPath_def dangerousChars_def)
  have g: "getPageData demoExternals demoClock (demoRequest ''/api/about'') ''/about''
       \<lparr>opt_enableCache = False, opt_cacheDuration = 3600, opt_receiverUsername = None,
        opt_maxCacheSize = 1048576, opt_requestTimeout = 5000\<rparr> emptyCache =
     (Some (Inr (demoPage None)), \<lparr>cacheAfter = emptyCache, fetched = [''http://example.com/about'']\<rparr>)"
    by (simp add: getPageData_def url_demo fetch_demo extract_demo demoClock_def)
  show ?thesis
    by (simp add: middleware_def headerConfig_def normalized_empty demoRequest_def x v
        isPathExcluded_def Let_def)
       (simp add: g [unfolded demoRequest_def] headers_rejected handleMiddlewareError_def
        createErrorResponse_def, simp add: demoExternals_def demoClock_def)
qed

section \<open>Properties of the configuration\<close>

lemma list_all_isStr: "list_all isStr xs \<longleftrightarrow> (\<exists>ps. xs = map Str ps)"
proof
  assume "list_all isStr xs"
  then have "xs = map Str (map strOf xs)"
  proof (induction xs)
    case Nil
    then show ?case by simp
  next
    case (Cons x xs)
    then show ?case by (cases x) simp_all
  qed
  then show "\<exists>ps. xs = map Str ps" ..
next
  assume "\<exists>ps. xs = map Str ps"
  then show "list_all isStr xs" by (auto simp: list_all_iff)
qed

lemma map_strOf_Str: "map strOf (map Str ps) = ps"
  by (induction ps) simp_all

lemma numIsInteger_iff: "numIsInteger n \<longleftrightarrow> (\<exists>i. n = Finite (of_int i))"
  by (cases n) auto

lemma apiPrefix_check:
  "(\<not> isStr v \<or> \<not> startsWith (strOf v) ''/'') \<longleftrightarrow> \<not> (\<exists>p. v = Str (CHR ''/'' # p))"
  by (cases v) (simp_all add: startsWith_iff)

lemma cacheDuration_check:
  "(\<not> isInteger v \<or>
     (case v of Num n \<Rightarrow> numLess n MIN_CACHE_DURATION \<or> numGreater n MAX_CACHE_DURATION | _ \<Rightarrow> False))
   \<longleftrightarrow> \<not> (\<exists>i. 60 \<le> i \<and> i \<le> 86400 \<and> v = Num (Finite (of_int i)))"
proof (cases v)
  case (Num n)
  show ?thesis
  proof (cases "numIsInteger n")
    case True
    then obtain i where i: "n = Finite (of_int i)" by (auto simp: numIsInteger_iff)
    show ?thesis
      by (auto simp: Num i MIN_CACHE_DURATION_def MAX_CACHE_DURATION_def)
  next
    case False
    then have "\<not> (\<exists>i. n = Finite (of_int i))" by (simp add: numIsInteger_iff)
    with False show ?thesis by (auto simp: Num)
  qed
qed simp_all


lemma excludePaths_check:
  "(case v of Arr xs \<Rightarrow> \<not> list_all isStr xs | _ \<Rightarrow> True) \<longleftrightarrow> \<not> (\<exists>ps. v = Arr (map Str ps))"
  by (cases v) (simp_all add: list_all_isStr)

lemma additionalHeaders_check:
  "\<not> isNonNullObject v \<longleftrightarrow> \<not> (\<exists>kvs. v = Obj kvs) \<and> \<not> (\<exists>xs. v = Arr xs)"
  by (cases v) simp_all

lemma hd_errors:
  "hd apiPrefixError = CHR ''a''" "hd (tl apiPrefixError) = CHR ''p''"
  "hd cacheDurationError = CHR ''c''" "hd excludePathsError = CHR ''e''"
  "hd additionalHeadersError = CHR ''a''" "hd (tl additionalHeadersError) = CHR ''d''"
  by (simp_all add: apiPrefixError_def cacheDurationError_def excludePathsError_def
      additionalHeadersError_def)

lemma errors_distinct:
  "distinct [apiPrefixError, cacheDurationError, excludePathsError, additionalHeadersError]"
proof -
  have a: "apiPrefixError \<noteq> cacheDurationError"
  proof
    assume "apiPrefixError = cacheDurationError"
    then have "hd apiPrefixError = hd cacheDurationError" by (rule arg_cong)
    then show False by (simp only: hd_errors) simp
  qed
  have b: "apiPrefixError \<noteq> excludePathsError"
  proof
    assume "apiPrefixError = excludePathsError"
    then have "hd apiPrefixError = hd excludePathsError" by (rule arg_cong)
    then show False by (simp only: hd_errors) simp
  qed
  have c: "apiPrefixError \<noteq> additionalHeadersError"
  proof
    assume "apiPrefixError = additionalHeadersError"
    then have "hd (tl apiPrefixError) = hd (tl additionalHeadersError)" by (rule arg_cong)
    then show False by (simp only: hd_errors) simp
  qed
  have d: "cacheDurationError \<noteq> excludePathsError"
  proof
    assume "cacheDurationError = excludePathsError"
    then have "hd cacheDurationError = hd excludePathsError" by (rule arg_cong)
    then show False by (simp only: hd_errors) simp
  qed
  have e: "cacheDurationError \<noteq> additionalHeadersError"
  proof
    assume "cacheDurationError = additionalHeadersError"
    then have "hd cacheDurationError = hd additionalHeadersError" by (rule arg_cong)
    then show False by (simp only: hd_errors) simp
  qed
  have f: "excludePathsError \<noteq> additionalHeadersError"
  proof
    assume "excludePathsError = additionalHeadersError"
    then have "hd excludePathsError = hd additionalHeadersError" by (rule arg_cong)
    then show False by (simp only: hd_errors) simp
  qed
  from a b c d e f show ?thesis by simp
qed


lemma checkApiPrefix_eq:
  "checkApiPrefix config errs = errs @
     (if raw_apiPrefix config \<noteq> Undefined \<and> \<not> (\<exists>p. raw_apiPrefix config = Str (CHR ''/'' # p))
      then [apiPrefixError] else [])"
  using apiPrefix_check [of "raw_apiPrefix config"]
  by (simp add: checkApiPrefix_def)

lemma checkCacheDuration_eq:
  "checkCacheDuration config errs = errs @
     (if raw_cacheDuration config \<noteq> Undefined \<and>
         \<not> (\<exists>i. 60 \<le> i \<and> i \<le> 86400 \<and> raw_cacheDuration config = Num (Finite (of_int i)))
      then [cacheDurationError] else [])"
  unfolding checkCacheDuration_def cacheDuration_check by auto

lemma checkExcludePaths_eq:
  "checkExcludePaths config errs = errs @
     (if raw_excludePaths config \<noteq> Undefined \<and> \<not> (\<exists>ps. raw_excludePaths config = Arr (map Str ps))
      then [excludePathsError] else [])"
  using excludePaths_check [of "raw_excludePaths config"]
  by (simp add: checkExcludePaths_def)

lemma checkAdditionalHeaders_eq:
  "checkAdditionalHeaders config errs = errs @
     (if raw_additionalHeaders config \<noteq> Undefined \<and>
         \<not> (\<exists>kvs. raw_additionalHeaders config = Obj kvs) \<and>
         \<not> (\<exists>xs. raw_additionalHeaders config = Arr xs)
      then [additionalHeadersError] else [])"
  using additionalHeaders_check [of "raw_additionalHeaders config"]
  by (simp add: checkAdditionalHeaders_def)

lemma validationErrors_eq:
  "validationErrors config =
     (if raw_apiPrefix config \<noteq> Undefined \<and> \<not> (\<exists>p. raw_apiPrefix config = Str (CHR ''/'' # p))
      then [apiPrefixError] else []) @
     (if raw_cacheDuration config \<noteq> Undefined \<and>
         \<not> (\<exists>i. 60 \<le> i \<and> i \<le> 86400 \<and> raw_cacheDuration config = Num (Finite (of_int i)))
      then [cacheDurationError] else []) @
     (if raw_excludePaths config \<noteq> Undefined \<and> \<not> (\<exists>ps. raw_excludePaths config = Arr (map Str ps))
      then [excludePathsError] else []) @
     (if raw_additionalHeaders config \<noteq> Undefined \<and>
         \<not> (\<exists>kvs. raw_additionalHeaders config = Obj kvs) \<and>
         \<not> (\<exists>xs. raw_additionalHeaders config = Arr xs)
      then [additionalHeadersError] else [])"
  by (simp only: validationErrors_def checkApiPrefix_eq checkCacheDuration_eq
      checkExcludePaths_eq checkAdditionalHeaders_eq append_Nil append_assoc)


text \<open>
  Claim C7. Validation runs the four checks and none stops another: the message of a
  check is in the list of violations exactly when that check fails (a given prefix that
  is not a string starting with \<^verbatim>\<open>/\<close>; a given duration that is not an integer from 60
  to 86400; given paths that are not an array of strings; given headers that are not a
  non-null object), the list holds each message at most once, in the order of the checks.
  When the list is not empty the result is the error of type \<^verbatim>\<open>INVALID_CONFIG\<close> whose
  message joins the list, and no configuration is produced. When it is empty the result
  is a configuration in which every option is the given value or else its default, the
  prefix starts with \<^verbatim>\<open>/\<close> and the duration lies in the range; the receiver stays as
  given, its default being \<^verbatim>\<open>undefined\<close>.
\<close>

theorem validateAndNormalizeConfig_spec:
  "(apiPrefixError \<in> set (validationErrors config) \<longleftrightarrow>
      raw_apiPrefix config \<noteq> Undefined \<and> \<not> (\<exists>p. raw_apiPrefix config = Str (CHR ''/'' # p))) \<and>
   (cacheDurationError \<in> set (validationErrors config) \<longleftrightarrow>
      raw_cacheDuration config \<noteq> Undefined \<and>
      \<not> (\<exists>i. 60 \<le> i \<and> i \<le> 86400 \<and> raw_cacheDuration config = Num (Finite (of_int i)))) \<and>
   (excludePathsError \<in> set (validationErrors config) \<longleftrightarrow>
      raw_excludePaths config \<noteq> Undefined \<and> \<not> (\<exists>ps. raw_excludePaths config = Arr (map Str ps))) \<and>
   (additionalHeadersError \<in> set (validationErrors config) \<longleftrightarrow>
      raw_additionalHeaders config \<noteq> Undefined \<and>
      \<not> (\<exists>kvs. raw_additionalHeaders config = Obj kvs) \<and>
      \<not> (\<exists>xs. raw_additionalHeaders config = Arr xs)) \<and>
   validationErrors config =
     filter (\<lambda>m. m \<in> set (validationErrors config))
       [apiPrefixError, cacheDurationError, excludePathsError, additionalHeadersError] \<and>
   (validationErrors config \<noteq> [] \<longrightarrow>
      validateAndNormalizeConfig config =
        Inl (AutoApiError
               (''Configuration validation failed: '' @ joinWith '', '' (validationErrors config))
               INVALID_CONFIG None None)) \<and>
   (validationErrors config = [] \<longrightarrow>
      (\<exists>c. validateAndNormalizeConfig config = Inr c \<and>
         enabled c = (case raw_enabled config of None \<Rightarrow> True | Some b \<Rightarrow> b) \<and>
         (raw_apiPrefix config = Undefined \<longrightarrow> apiPrefix c = ''/api'') \<and>
         (\<forall>p. raw_apiPrefix config = Str p \<longrightarrow> apiPrefix c = p) \<and>
         startsWith (apiPrefix c) ''/'' \<and>
         (raw_excludePaths config = Undefined \<longrightarrow> excludePaths c = []) \<and>
         (\<forall>ps. raw_excludePaths config = Arr (map Str ps) \<longrightarrow> excludePaths c = ps) \<and>
         additionalHeaders c =
           (if raw_additionalHeaders config = Undefined then Obj [] else raw_additionalHeaders config) \<and>
         enableCache c = (case raw_enableCache config of None \<Rightarrow> False | Some b \<Rightarrow> b) \<and>
         (raw_cacheDuration config = Undefined \<longrightarrow> cacheDuration c = 3600) \<and>
         (\<forall>i. raw_cacheDuration config = Num (Finite (of_int i)) \<longrightarrow> cacheDuration c = i) \<and>
         60 \<le> cacheDuration c \<and> cacheDuration c \<le> 86400 \<and>
         cfg_receiverUsername c = raw_receiverUsername config \<and>
         maxCacheSize c = (case raw_maxCacheSize config of None \<Rightarrow> 1048576 | Some n \<Rightarrow> n) \<and>
         requestTimeout c = (case raw_requestTimeout config of None \<Rightarrow> 5000 | Some n \<Rightarrow> n)))"
proof -
  define b1 where "b1 \<longleftrightarrow>
    raw_apiPrefix config \<noteq> Undefined \<and> \<not> (\<exists>p. raw_apiPrefix config = Str (CHR ''/'' # p))"
  define b2 where "b2 \<longleftrightarrow>
    raw_cacheDuration config \<noteq> Undefined \<and>
    \<not> (\<exists>i. 60 \<le> i \<and> i \<le> 86400 \<and> raw_cacheDuration config = Num (Finite (of_int i)))"
  define b3 where "b3 \<longleftrightarrow>
    raw_excludePaths config \<noteq> Undefined \<and> \<not> (\<exists>ps. raw_excludePaths config = Arr (map Str ps))"
  define b4 where "b4 \<longleftrightarrow>
    raw_additionalHeaders config \<noteq> Undefined \<and>
    \<not> (\<exists>kvs. raw_additionalHeaders config = Obj kvs) \<and>
    \<not> (\<exists>xs. raw_additionalHeaders config = Arr xs)"
  have ve: "validationErrors config =
      (if b1 then [apiPrefixError] else []) @ (if b2 then [cacheDurationError] else []) @
      (if b3 then [excludePathsError] else []) @ (if b4 then [additionalHeadersError] else [])"
    unfolding b1_def b2_def b3_def b4_def by (rule validationErrors_eq)
  have neq: "apiPrefixError \<noteq> cacheDurationError" "apiPrefixError \<noteq> excludePathsError"
    "apiPrefixError \<noteq> additionalHeadersError" "cacheDurationError \<noteq> excludePathsError"
    "cacheDurationError \<noteq> additionalHeadersError" "excludePathsError \<noteq> additionalHeadersError"
    using errors_distinct by simp_all
  have m1: "apiPrefixError \<in> set (validationErrors config) \<longleftrightarrow> b1"
    using neq by (simp add: ve)
  have m2: "cacheDurationError \<in> set (validationErrors config) \<longleftrightarrow> b2"
    using neq by (auto simp: ve)
  have m3: "excludePathsError \<in> set (validationErrors config) \<longleftrightarrow> b3"
    using neq by (auto simp: ve)
  have m4: "additionalHeadersError \<in> set (validationErrors config) \<longleftrightarrow> b4"
    using neq by (auto simp: ve)
  have ord: "validationErrors config =
     filter (\<lambda>m. m \<in> set (validationErrors config))
       [apiPrefixError, cacheDurationError, excludePathsError, additionalHeadersError]"
    by (simp add: m1 m2 m3 m4) (simp add: ve)
  have bad: "validationErrors config \<noteq> [] \<longrightarrow>
      validateAndNormalizeConfig config =
        Inl (AutoApiError
               (''Configuration validation failed: '' @ joinWith '', '' (validationErrors config))
               INVALID_CONFIG None None)"
    by (simp add: validateAndNormalizeConfig_def Let_def)
  have good: "validationErrors config = [] \<longrightarrow>
      (\<exists>c. validateAndNormalizeConfig config = Inr c \<and>
         enabled c = (case raw_enabled config of None \<Rightarrow> True | Some b \<Rightarrow> b) \<and>
         (raw_apiPrefix config = Undefined \<longrightarrow> apiPrefix c = ''/api'') \<and>
         (\<forall>p. raw_apiPrefix config = Str p \<longrightarrow> apiPrefix c = p) \<and>
         startsWith (apiPrefix c) ''/'' \<and>
         (raw_excludePaths config = Undefined \<longrightarrow> excludePaths c = []) \<and>
         (\<forall>ps. raw_excludePaths config = Arr (map Str ps) \<longrightarrow> excludePaths c = ps) \<and>
         additionalHeaders c =
           (if raw_additionalHeaders config = Undefined then Obj [] else raw_additionalHeaders config) \<and>
         enableCache c = (case raw_enableCache config of None \<Rightarrow> False | Some b \<Rightarrow> b) \<and>
         (raw_cacheDuration config = Undefined \<longrightarrow> cacheDuration c = 3600) \<and>
         (\<forall>i. raw_cacheDuration config = Num (Finite (of_int i)) \<longrightarrow> cacheDuration c = i) \<and>
         60 \<le> cacheDuration c \<and> cacheDuration c \<le> 86400 \<and>
         cfg_receiverUsername c = raw_receiverUsername config \<and>
         maxCacheSize c = (case raw_maxCacheSize config of None \<Rightarrow> 1048576 | Some n \<Rightarrow> n) \<and>
         requestTimeout c = (case raw_requestTimeout config of None \<Rightarrow> 5000 | Some n \<Rightarrow> n))"
  proof
    assume ok: "validationErrors config = []"
    then have nb: "\<not> b1" "\<not> b2" "\<not> b3" "\<not> b4"
      using m1 m2 m3 m4 by simp_all
    let ?c = "normalizedConfig config"
    have r: "validateAndNormalizeConfig config = Inr ?c"
      using ok by (simp add: validateAndNormalizeConfig_def)
    have f1: "enabled ?c = (case raw_enabled config of None \<Rightarrow> True | Some b \<Rightarrow> b)"
      by (simp add: normalizedConfig_def)
    have f2: "raw_apiPrefix config = Undefined \<longrightarrow> apiPrefix ?c = ''/api''"
      by (simp add: normalizedConfig_def DEFAULT_API_PREFIX_def)
    have f3: "\<forall>p. raw_apiPrefix config = Str p \<longrightarrow> apiPrefix ?c = p"
      by (simp add: normalizedConfig_def)
    have f4: "startsWith (apiPrefix ?c) ''/''"
      using nb(1) unfolding b1_def
      by (auto simp: normalizedConfig_def DEFAULT_API_PREFIX_def)
    have f5: "raw_excludePaths config = Undefined \<longrightarrow> excludePaths ?c = []"
      by (simp add: normalizedConfig_def)
    have f6: "\<forall>ps. raw_excludePaths config = Arr (map Str ps) \<longrightarrow> excludePaths ?c = ps"
      by (auto simp: normalizedConfig_def comp_def)
    have f7: "additionalHeaders ?c =
           (if raw_additionalHeaders config = Undefined then Obj [] else raw_additionalHeaders config)"
      using nb(4) unfolding b4_def
      by (auto simp: normalizedConfig_def)
    have f8: "enableCache ?c = (case raw_enableCache config of None \<Rightarrow> False | Some b \<Rightarrow> b)"
      by (simp add: normalizedConfig_def)
    have f9: "raw_cacheDuration config = Undefined \<longrightarrow> cacheDuration ?c = 3600"
      by (simp add: normalizedConfig_def DEFAULT_CACHE_DURATION_def)
    have f10: "\<forall>i. raw_cacheDuration config = Num (Finite (of_int i)) \<longrightarrow> cacheDuration ?c = i"
      by (simp add: normalizedConfig_def)
    have f11: "60 \<le> cacheDuration ?c" "cacheDuration ?c \<le> 86400"
      using nb(2) unfolding b2_def
      by (auto simp: normalizedConfig_def DEFAULT_CACHE_DURATION_def)
    have f12: "cfg_receiverUsername ?c = raw_receiverUsername config"
      by (simp add: normalizedConfig_def)
    have f13: "maxCacheSize ?c = (case raw_maxCacheSize config of None \<Rightarrow> 1048576 | Some n \<Rightarrow> n)"
      by (simp add: normalizedConfig_def DEFAULT_MAX_CACHE_SIZE_def split: option.splits)
    have f14: "requestTimeout ?c = (case raw_requestTimeout config of None \<Rightarrow> 5000 | Some n \<Rightarrow> n)"
      by (simp add: normalizedConfig_def DEFAULT_REQUEST_TIMEOUT_def split: option.splits)
    from r f1 f2 f3 f4 f5 f6 f7 f8 f9 f10 f11 f12 f13 f14
    show "\<exists>c. validateAndNormalizeConfig config = Inr c \<and>
         enabled c = (case raw_enabled config of None \<Rightarrow> True | Some b \<Rightarrow> b) \<and>
         (raw_apiPrefix config = Undefined \<longrightarrow> apiPrefix c = ''/api'') \<and>
         (\<forall>p. raw_apiPrefix config = Str p \<longrightarrow> apiPrefix c = p) \<and>
         startsWith (apiPrefix c) ''/'' \<and>
         (raw_excludePaths config = Undefined \<longrightarrow> excludePaths c = []) \<and>
         (\<forall>ps. raw_excludePaths config = Arr (map Str ps) \<longrightarrow> excludePaths c = ps) \<and>
         additionalHeaders c =
           (if raw_additionalHeaders config = Undefined then Obj [] else raw_additionalHeaders config) \<and>
         enableCache c = (case raw_enableCache config of None \<Rightarrow> False | Some b \<Rightarrow> b) \<and>
         (raw_cacheDuration config = Undefined \<longrightarrow> cacheDuration c = 3600) \<and>
         (\<forall>i. raw_cacheDuration config = Num (Finite (of_int i)) \<longrightarrow> cacheDuration c = i) \<and>
         60 \<le> cacheDuration c \<and> cacheDuration c \<le> 86400 \<and>
         cfg_receiverUsername c = raw_receiverUsername config \<and>
         maxCacheSize c = (case raw_maxCacheSize config of None \<Rightarrow> 1048576 | Some n \<Rightarrow> n) \<and>
         requestTimeout c = (case raw_requestTimeout config of None \<Rightarrow> 5000 | Some n \<Rightarrow> n)"
      by (intro exI [of _ ?c] conjI)
  qed
  from m1 m2 m3 m4 ord bad good show ?thesis
    unfolding b1_def b2_def b3_def b4_def by (intro conjI)
qed

lemma validationErrors_bad:
  "validationErrors badConfig =
     [apiPrefixError, cacheDurationError, excludePathsError, additionalHeadersError]"
  by (simp add: validationErrors_def checkApiPrefix_def checkCacheDuration_def
      checkExcludePaths_def checkAdditionalHeaders_def badConfig_def emptyConfig_def
      MIN_CACHE_DURATION_def MAX_CACHE_DURATION_def)

lemma validationErrors_empty: "validationErrors emptyConfig = []"
  by (simp add: validationErrors_def checkApiPrefix_def checkCacheDuration_def
      checkExcludePaths_def checkAdditionalHeaders_def emptyConfig_def)

lemma bad_message:
  "joinWith '', '' [apiPrefixError, cacheDurationError, excludePathsError, additionalHeadersError] =
   ''apiPrefix must be a string starting with '' @ [CHR 0x22] @ ''/'' @ [CHR 0x22] @
   '', cacheDuration must be an integer between 60 and 86400'' @
   '', excludePaths must be an array of strings'' @
   '', additionalHeaders must be an object''"
  by (simp add: apiPrefixError_def cacheDurationError_def excludePathsError_def
      additionalHeadersError_def MIN_CACHE_DURATION_def MAX_CACHE_DURATION_def showInt_def
      showNat.simps digitChar_def)

theorem validateAndNormalizeConfig_spec_witness:
  "validationErrors badConfig \<noteq> [] \<and>
   validateAndNormalizeConfig badConfig =
     Inl (AutoApiError
            (''Configuration validation failed: '' @
             ''apiPrefix must be a string starting with '' @ [CHR 0x22] @ ''/'' @ [CHR 0x22] @
             '', cacheDuration must be an integer between 60 and 86400'' @
             '', excludePaths must be an array of strings'' @
             '', additionalHeaders must be an object'')
            INVALID_CONFIG None None) \<and>
   validationErrors emptyConfig = [] \<and>
   validateAndNormalizeConfig emptyConfig =
     Inr \<lparr>enabled = True, apiPrefix = ''/api'', excludePaths = [], additionalHeaders = Obj [],
          enableCache = False, cacheDuration = 3600, cfg_receiverUsername = None,
          maxCacheSize = 1048576, requestTimeout = 5000\<rparr>"
proof -
  have nb: "validationErrors badConfig \<noteq> []" by (simp add: validationErrors_bad)
  note failing = validateAndNormalizeConfig_spec [of badConfig, THEN conjunct2, THEN conjunct2,
    THEN conjunct2, THEN conjunct2, THEN conjunct2, THEN conjunct1, rule_format]
  from failing [OF nb]
  have "validateAndNormalizeConfig badConfig =
        Inl (AutoApiError
               (''Configuration validation failed: '' @ joinWith '', '' (validationErrors badConfig))
               INVALID_CONFIG None None)" .
  then have bad: "validateAndNormalizeConfig badConfig =
     Inl (AutoApiError
            (''Configuration validation failed: '' @
             ''apiPrefix must be a string starting with '' @ [CHR 0x22] @ ''/'' @ [CHR 0x22] @
             '', cacheDuration must be an integer between 60 and 86400'' @
             '', excludePaths must be an array of strings'' @
             '', additionalHeaders must be an object'')
            INVALID_CONFIG None None)"
    unfolding validationErrors_bad bad_message by simp
  have ne: "validationErrors emptyConfig = []" by (rule validationErrors_empty)
  note passing = validateAndNormalizeConfig_spec [of emptyConfig, THEN conjunct2, THEN conjunct2,
    THEN conjunct2, THEN conjunct2, THEN conjunct2, THEN conjunct2, THEN mp]
  from passing [OF ne]
  obtain c where c: "validateAndNormalizeConfig emptyConfig = Inr c" by (elim exE conjE)
  then have "c = normalizedConfig emptyConfig" by (simp add: validate_empty)
  with c have good: "validateAndNormalizeConfig emptyConfig =
     Inr \<lparr>enabled = True, apiPrefix = ''/api'', excludePaths = [], additionalHeaders = Obj [],
          enableCache = False, cacheDuration = 3600, cfg_receiverUsername = None,
          maxCacheSize = 1048576, requestTimeout = 5000\<rparr>"
    by (simp add: normalized_empty)
  from nb bad ne good show ?thesis by simp
qed

text \<open>No middleware is built from a configuration with a violation.\<close>

lemma withAutoApiMiddleware_invalid:
  "validationErrors config \<noteq> [] \<Longrightarrow> \<exists>e. withAutoApiMiddleware ext clock config = Inl e"
  by (simp add: withAutoApiMiddleware_def validateAndNormalizeConfig_def Let_def)

section \<open>Properties of the maintenance function\<close>

text \<open>
  Claim C10. \<^verbatim>\<open>clearCache\<close> called with a number that is not a positive integer (zero,
  a negative number, a fraction, \<^verbatim>\<open>NaN\<close>, an infinity) gives the error of type
  \<^verbatim>\<open>INVALID_CONFIG\<close> and leaves the cache as it was. Called with a positive integer it
  returns the number of expired entries, which are exactly the entries it removes, their
  sizes taken off the running total. Called without argument it uses 3600 seconds.
\<close>

theorem clearCache_spec:
  "(\<not> (\<exists>i. 1 \<le> i \<and> d = Finite (of_int i)) \<longrightarrow>
      clearCache (Some d) now s =
        (Inl (AutoApiError ''cacheDuration must be a positive integer'' INVALID_CONFIG None None), s)) \<and>
   (\<forall>i. 1 \<le> i \<and> uniqueKeys s \<longrightarrow>
      clearCache (Some (Finite (of_int i))) now s =
        (Inr (int (length (filter (expired i now) (cache s)))),
         s\<lparr>cache := filter (\<lambda>kv. \<not> expired i now kv) (cache s),
           totalCacheSize := totalCacheSize s - storedSize (filter (expired i now) (cache s))\<rparr>) \<and>
      int (length (filter (expired i now) (cache s))) =
        int (length (cache s)) - int (length (filter (\<lambda>kv. \<not> expired i now kv) (cache s)))) \<and>
   clearCache None now s = clearCache (Some (Finite 3600)) now s"
proof (intro conjI impI allI)
  assume n: "\<not> (\<exists>i. 1 \<le> i \<and> d = Finite (of_int i))"
  have "\<not> numIsInteger d \<or> numLess d 1"
  proof (cases "numIsInteger d")
    case True
    then obtain i where i: "d = Finite (of_int i)" by (auto simp: numIsInteger_iff)
    with n have "\<not> 1 \<le> i" by blast
    then show ?thesis by (simp add: i)
  next
    case False
    then show ?thesis by simp
  qed
  then show "clearCache (Some d) now s =
        (Inl (AutoApiError ''cacheDuration must be a positive integer'' INVALID_CONFIG None None), s)"
    by (auto simp: clearCache_def)
next
  fix i :: int assume a: "1 \<le> i \<and> uniqueKeys s"
  then have "\<not> (\<not> numIsInteger (Finite (of_int i)) \<or> numLess (Finite (of_int i)) 1)"
    by simp
  then show "clearCache (Some (Finite (of_int i))) now s =
        (Inr (int (length (filter (expired i now) (cache s)))),
         s\<lparr>cache := filter (\<lambda>kv. \<not> expired i now kv) (cache s),
           totalCacheSize := totalCacheSize s - storedSize (filter (expired i now) (cache s))\<rparr>)"
    using a by (simp add: clearCache_def clearExpiredCache_eq)
next
  fix i :: int
  have "length (filter (expired i now) (cache s)) + length (filter (\<lambda>kv. \<not> expired i now kv) (cache s))
        = length (cache s)"
    by (rule sum_length_filter_compl)
  then show "int (length (filter (expired i now) (cache s))) =
        int (length (cache s)) - int (length (filter (\<lambda>kv. \<not> expired i now kv) (cache s)))"
    by linarith
next
  show "clearCache None now s = clearCache (Some (Finite 3600)) now s"
    by (simp add: clearCache_def DEFAULT_CACHE_DURATION_def)
qed

lemma not_pos_int:
  "\<not> (\<exists>i. 1 \<le> i \<and> Finite 0 = Finite (of_int i))"
  "\<not> (\<exists>i. 1 \<le> i \<and> Finite (- 5) = Finite (of_int i))"
  "\<not> (\<exists>i. 1 \<le> i \<and> NaN = Finite (of_int i))"
  by auto

lemma not_int_three_halves: "\<not> (\<exists>i. 1 \<le> i \<and> Finite (3 / 2) = Finite (of_int i))"
proof -
  have "\<not> numIsInteger (Finite (3 / 2))" by code_simp
  then show ?thesis unfolding numIsInteger_iff by blast
qed

theorem clearCache_spec_witness:
  "clearCache (Some (Finite 0)) 5000 cacheWithA =
     (Inl (AutoApiError ''cacheDuration must be a positive integer'' INVALID_CONFIG None None), cacheWithA) \<and>
   clearCache (Some (Finite (- 5))) 5000 cacheWithA =
     (Inl (AutoApiError ''cacheDuration must be a positive integer'' INVALID_CONFIG None None), cacheWithA) \<and>
   clearCache (Some (Finite (3 / 2))) 5000 cacheWithA =
     (Inl (AutoApiError ''cacheDuration must be a positive integer'' INVALID_CONFIG None None), cacheWithA) \<and>
   clearCache (Some NaN) 5000 cacheWithA =
     (Inl (AutoApiError ''cacheDuration must be a positive integer'' INVALID_CONFIG None None), cacheWithA) \<and>
   (1::int) \<le> 2 \<and> uniqueKeys cacheWithA \<and>
   clearCache (Some (Finite 2)) 5000 cacheWithA = (Inr 1, \<lparr>cache = [], totalCacheSize = 0\<rparr>) \<and>
   clearCache (Some (Finite 5)) 5000 cacheWithA = (Inr 0, cacheWithA)"
proof -
  note bad = clearCache_spec [THEN conjunct1, rule_format]
  note good = clearCache_spec [THEN conjunct2, THEN conjunct1, rule_format, THEN conjunct1]
  have u: "uniqueKeys cacheWithA" by (simp add: cacheWithA_eq uniqueKeys_def)
  have g2: "clearCache (Some (Finite (of_int 2))) 5000 cacheWithA =
      (Inr 1, \<lparr>cache = [], totalCacheSize = 0\<rparr>)"
    using good [of 2 cacheWithA 5000] u
    by (simp add: cacheWithA_eq expired_def storedSize_def)
  have g5: "clearCache (Some (Finite (of_int 5))) 5000 cacheWithA = (Inr 0, cacheWithA)"
    using good [of 5 cacheWithA 5000] u
    by (simp add: cacheWithA_eq expired_def storedSize_def)
  from bad [OF not_pos_int(1)] bad [OF not_pos_int(2)] bad [OF not_int_three_halves]
    bad [OF not_pos_int(3)] u g2 g5
  show ?thesis by simp
qed


section \<open>Properties of the fetcher\<close>

subsection \<open>What the timer covers\<close>

lemma awaitFetch_late:
  assumes "b = Unresponsive \<or> (\<exists>t name. b = ConnectionFails t name \<and> timeout \<le> int t) \<or>
           (\<exists>t status statusText body. b = Answers t status statusText body \<and> timeout \<le> int t)"
  shows "awaitFetch b timeout = Rejected ''AbortError''"
  using assms by (auto simp: awaitFetch_def beforeTimer_def)

lemma fetch_timeout:
  "awaitFetch (origin ext url) timeout = Rejected ''AbortError'' \<Longrightarrow>
   fetchPageContent ext url timeout =
     Some (Inl (Api (AutoApiError (''Request timeout after '' @ showInt timeout @ ''ms'')
                       TIMEOUT_ERROR (Some 408) None)))"
  by (simp add: fetchPageContent_def fetchTry_def fetchCatch_def)

lemma fetch_not_ok:
  "origin ext url = Answers t status statusText body \<Longrightarrow> int t < timeout \<Longrightarrow>
   \<not> (200 \<le> status \<and> status \<le> 299) \<Longrightarrow>
   fetchPageContent ext url timeout =
     Some (Inl (Api (AutoApiError (''HTTP '' @ showNat status @ '': '' @ statusText)
                       FETCH_ERROR (Some (int status)) None)))"
  by (simp add: fetchPageContent_def fetchTry_def fetchCatch_def awaitFetch_def beforeTimer_def
      responseOk_def)

text \<open>
  Once the headers of a successful answer have arrived before the timer fires, the
  result depends on the body alone and no longer on the timeout: whenever the body is
  complete its text is returned, and when it never is complete the call never returns.
\<close>

lemma fetch_body_untimed:
  assumes "origin ext url = Answers t status statusText body"
    and "int t < timeout" and "200 \<le> status \<and> status \<le> 299"
  shows "fetchPageContent ext url timeout =
     (case body of
        BodyArrives t' content \<Rightarrow> Some (Inr content)
      | BodyFails t' name \<Rightarrow> Some (Inl (fetchCatch timeout (Other name)))
      | BodyStalls \<Rightarrow> None)"
  using assms
  by (cases body)
     (simp_all add: fetchPageContent_def fetchTry_def awaitFetch_def awaitText_def
        beforeTimer_def responseOk_def)

lemma no_host:
  "hostHeader request = None \<or> hostHeader request = Some [] \<Longrightarrow>
   constructPageUrl ext request pagePath =
     Inl (Api (AutoApiError ''Missing host header in request'' FETCH_ERROR (Some 400) None))"
  by (auto simp: constructPageUrl_def)

text \<open>\<^verbatim>\<open>getPageData\<close> when it does not answer from the cache.\<close>

lemma getPageData_miss:
  assumes "\<not> opt_enableCache options \<or>
           fst (getCachedData pagePath (opt_cacheDuration options) (tLookup clock) s) = None"
  shows "getPageData ext clock request pagePath options s =
     (let s1 = (if opt_enableCache options
                then snd (getCachedData pagePath (opt_cacheDuration options) (tLookup clock) s)
                else s)
      in case constructPageUrl ext request pagePath of
        Inl err \<Rightarrow> (Some (Inl (pageDataCatch pagePath err)), \<lparr>cacheAfter = s1, fetched = []\<rparr>)
      | Inr pageUrl \<Rightarrow>
          (case fetchPageContent ext pageUrl (opt_requestTimeout options) of
             None \<Rightarrow> (None, \<lparr>cacheAfter = s1, fetched = [pageUrl]\<rparr>)
           | Some (Inl err) \<Rightarrow>
               (Some (Inl (pageDataCatch pagePath err)), \<lparr>cacheAfter = s1, fetched = [pageUrl]\<rparr>)
           | Some (Inr htmlContent) \<Rightarrow>
               (case extractPageData ext htmlContent pagePath
                       (opt_receiverUsername options) (tExtract clock) of
                  Inl e \<Rightarrow>
                    (Some (Inl (pageDataCatch pagePath (Api e))),
                     \<lparr>cacheAfter = s1, fetched = [pageUrl]\<rparr>)
                | Inr extractedData \<Rightarrow>
                    (Some (Inr extractedData),
                     \<lparr>cacheAfter =
                        (if opt_enableCache options \<and>
                            shouldCacheData extractedData (opt_maxCacheSize options)
                         then cachePageData pagePath extractedData
                                (opt_maxCacheSize options) (tStore clock) s1
                         else s1),
                      fetched = [pageUrl]\<rparr>))))"
proof (cases "opt_enableCache options")
  case True
  with assms have "fst (getCachedData pagePath (opt_cacheDuration options) (tLookup clock) s) = None"
    by simp
  with True show ?thesis
    by (simp add: getPageData_def Let_def split: sum.splits option.splits)
next
  case False
  then show ?thesis
    by (simp add: getPageData_def Let_def split: sum.splits option.splits)
qed

text \<open>
  The parts of claim C9 that hold. When \<^verbatim>\<open>getPageData\<close> does not answer from the cache:
  without a host header the call fails with \<^verbatim>\<open>FETCH_ERROR\<close> and status 400 and no URL
  has been requested; when the origin has not answered by the time the timer fires, the
  call fails with \<^verbatim>\<open>TIMEOUT_ERROR\<close> and status 408; when the origin answers in time with
  a status outside 200 to 299, the call fails with \<^verbatim>\<open>FETCH_ERROR\<close>, the origin's status
  as status code and the status and status text in the message.
\<close>

lemma getPageData_fetch_errors:
  assumes "\<not> opt_enableCache options \<or>
           fst (getCachedData pagePath (opt_cacheDuration options) (tLookup clock) s) = None"
  shows
    "(hostHeader request = None \<or> hostHeader request = Some [] \<longrightarrow>
        fst (getPageData ext clock request pagePath options s) =
          Some (Inl (AutoApiError ''Missing host header in request'' FETCH_ERROR (Some 400) None)) \<and>
        fetched (snd (getPageData ext clock request pagePath options s)) = []) \<and>
     (\<forall>url. constructPageUrl ext request pagePath = Inr url \<and>
            (origin ext url = Unresponsive \<or>
             (\<exists>t name. origin ext url = ConnectionFails t name \<and> opt_requestTimeout options \<le> int t) \<or>
             (\<exists>t status statusText body.
                origin ext url = Answers t status statusText body \<and>
                opt_requestTimeout options \<le> int t)) \<longrightarrow>
        fst (getPageData ext clock request pagePath options s) =
          Some (Inl (AutoApiError
                       (''Request timeout after '' @ showInt (opt_requestTimeout options) @ ''ms'')
                       TIMEOUT_ERROR (Some 408) None))) \<and>
     (\<forall>url t status statusText body.
        constructPageUrl ext request pagePath = Inr url \<and>
        origin ext url = Answers t status statusText body \<and>
        int t < opt_requestTimeout options \<and>
        \<not> (200 \<le> status \<and> status \<le> 299) \<longrightarrow>
        fst (getPageData ext clock request pagePath options s) =
          Some (Inl (AutoApiError (''HTTP '' @ showNat status @ '': '' @ statusText)
                       FETCH_ERROR (Some (int status)) None)))"
proof (intro conjI impI allI)
  note g = getPageData_miss [OF assms, of ext request]
  {
    assume h: "hostHeader request = None \<or> hostHeader request = Some []"
    note c = no_host [OF h, of ext pagePath]
    show "fst (getPageData ext clock request pagePath options s) =
          Some (Inl (AutoApiError ''Missing host header in request'' FETCH_ERROR (Some 400) None))"
      by (simp add: g c pageDataCatch_def Let_def)
    show "fetched (snd (getPageData ext clock request pagePath options s)) = []"
      by (simp add: g c Let_def)
  }
  {
    fix url
    assume a: "constructPageUrl ext request pagePath = Inr url \<and>
            (origin ext url = Unresponsive \<or>
             (\<exists>t name. origin ext url = ConnectionFails t name \<and> opt_requestTimeout options \<le> int t) \<or>
             (\<exists>t status statusText body.
                origin ext url = Answers t status statusText body \<and>
                opt_requestTimeout options \<le> int t))"
    then have "awaitFetch (origin ext url) (opt_requestTimeout options) = Rejected ''AbortError''"
      by (intro awaitFetch_late) simp
    then have "fetchPageContent ext url (opt_requestTimeout options) =
      Some (Inl (Api (AutoApiError
                        (''Request timeout after '' @ showInt (opt_requestTimeout options) @ ''ms'')
                        TIMEOUT_ERROR (Some 408) None)))"
      by (rule fetch_timeout)
    with a show "fst (getPageData ext clock request pagePath options s) =
          Some (Inl (AutoApiError
                       (''Request timeout after '' @ showInt (opt_requestTimeout options) @ ''ms'')
                       TIMEOUT_ERROR (Some 408) None))"
      by (simp add: g pageDataCatch_def Let_def)
  }
  {
    fix url t status statusText body
    assume a: "constructPageUrl ext request pagePath = Inr url \<and>
        origin ext url = Answers t status statusText body \<and>
        int t < opt_requestTimeout options \<and>
        \<not> (200 \<le> status \<and> status \<le> 299)"
    then have "fetchPageContent ext url (opt_requestTimeout options) =
      Some (Inl (Api (AutoApiError (''HTTP '' @ showNat status @ '': '' @ statusText)
                        FETCH_ERROR (Some (int status)) None)))"
      using fetch_not_ok [of ext url t status statusText body "opt_requestTimeout options"]
      by blast
    with a show "fst (getPageData ext clock request pagePath options s) =
          Some (Inl (AutoApiError (''HTTP '' @ showNat status @ '': '' @ statusText)
                       FETCH_ERROR (Some (int status)) None))"
      by (simp add: g pageDataCatch_def Let_def)
  }
qed

subsection \<open>The requests of the concrete origin\<close>

lemma show_5000: "showInt 5000 = ''5000''"
  by (simp add: showInt_def showNat.simps digitChar_def)

lemma show_404: "showNat 404 = ''404''"
  by (simp add: showNat.simps digitChar_def)

lemma uncached_miss:
  "\<not> opt_enableCache uncachedOptions \<or>
   fst (getCachedData p (opt_cacheDuration uncachedOptions) (tLookup demoClock) emptyCache) = None"
  by (simp add: uncachedOptions_def)

lemma url_of_demo:
  "constructPageUrl demoExternals (demoRequest r) p = Inr (''http://example.com'' @ p)"
  by (simp add: constructPageUrl_def demoExternals_def demoRequest_def)

lemma getPageData_fetch_errors_examples:
  "fst (getPageData demoExternals demoClock noHostRequest ''/about'' uncachedOptions emptyCache) =
     Some (Inl (AutoApiError ''Missing host header in request'' FETCH_ERROR (Some 400) None)) \<and>
   fetched (snd (getPageData demoExternals demoClock noHostRequest ''/about'' uncachedOptions emptyCache)) = [] \<and>
   fst (getPageData demoExternals demoClock (demoRequest ''/api/slow'') ''/slow'' uncachedOptions emptyCache) =
     Some (Inl (AutoApiError ''Request timeout after 5000ms'' TIMEOUT_ERROR (Some 408) None)) \<and>
   fst (getPageData demoExternals demoClock (demoRequest ''/api/tardy'') ''/tardy'' uncachedOptions emptyCache) =
     Some (Inl (AutoApiError ''Request timeout after 5000ms'' TIMEOUT_ERROR (Some 408) None)) \<and>
   fst (getPageData demoExternals demoClock (demoRequest ''/api/missing'') ''/missing'' uncachedOptions emptyCache) =
     Some (Inl (AutoApiError ''HTTP 404: Not Found'' FETCH_ERROR (Some 404) None))"
proof -
  note nohost = getPageData_fetch_errors [OF uncached_miss, THEN conjunct1, rule_format]
  note timeout = getPageData_fetch_errors [OF uncached_miss, THEN conjunct2, THEN conjunct1, rule_format]
  note notok = getPageData_fetch_errors [OF uncached_miss, THEN conjunct2, THEN conjunct2, rule_format]
  have t: "opt_requestTimeout uncachedOptions = 5000" by (simp add: uncachedOptions_def)
  have h: "hostHeader noHostRequest = None \<or> hostHeader noHostRequest = Some []"
    by (simp add: noHostRequest_def)
  note a = nohost [OF h, where ext = demoExternals and pagePath = "''/about''"]
  have o1: "origin demoExternals ''http://example.com/slow'' = Unresponsive"
    by (simp add: demoExternals_def)
  have b: "fst (getPageData demoExternals demoClock (demoRequest ''/api/slow'') ''/slow'' uncachedOptions emptyCache) =
     Some (Inl (AutoApiError ''Request timeout after 5000ms'' TIMEOUT_ERROR (Some 408) None))"
    using timeout [where ext = demoExternals and request = "demoRequest ''/api/slow''"
        and pagePath = "''/slow''" and url = "''http://example.com/slow''"]
      o1 by (simp add: url_of_demo t show_5000)
  have o2: "origin demoExternals ''http://example.com/tardy'' =
      Answers 7000 200 ''OK'' (BodyArrives 7010 demoMarkup)"
    by (simp add: demoExternals_def)
  have c: "fst (getPageData demoExternals demoClock (demoRequest ''/api/tardy'') ''/tardy'' uncachedOptions emptyCache) =
     Some (Inl (AutoApiError ''Request timeout after 5000ms'' TIMEOUT_ERROR (Some 408) None))"
    using timeout [where ext = demoExternals and request = "demoRequest ''/api/tardy''"
        and pagePath = "''/tardy''" and url = "''http://example.com/tardy''"]
      o2 by (simp add: url_of_demo t show_5000)
  have o3: "origin demoExternals ''http://example.com/missing'' =
      Answers 15 404 ''Not Found'' (BodyArrives 16 [])"
    by (simp add: demoExternals_def)
  have d: "fst (getPageData demoExternals demoClock (demoRequest ''/api/missing'') ''/missing'' uncachedOptions emptyCache) =
     Some (Inl (AutoApiError ''HTTP 404: Not Found'' FETCH_ERROR (Some 404) None))"
    using notok [where ext = demoExternals and request = "demoRequest ''/api/missing''"
        and pagePath = "''/missing''" and url = "''http://example.com/missing''"
        and t = 15 and status = 404 and statusText = "''Not Found''" and body = "BodyArrives 16 []"]
      o3 by (simp add: url_of_demo t show_404)
  from a b c d show ?thesis by simp
qed

text \<open>
  Claim C9. The fetch is meant to fail with \<^verbatim>\<open>TIMEOUT_ERROR\<close> and status 408 whenever the
  timeout elapses before it is complete. The code sets the timer and calls
  \<^verbatim>\<open>clearTimeout\<close> as soon as \<^verbatim>\<open>await fetch\<close> has the headers, before
  \<^verbatim>\<open>await response.text()\<close>, so the timeout covers the headers and not the body. With a
  timeout of 5000 milliseconds and an origin that sends the headers after 20 milliseconds
  and then never completes the body, \<^verbatim>\<open>fetchPageContent\<close>, \<^verbatim>\<open>getPageData\<close> and the
  middleware never return, with the URL requested; when the body is complete after a
  minute, the markup is returned and no error is raised.
\<close>

theorem fetchPageContent_body_not_timed:
  "origin demoExternals ''http://example.com/stalled'' = Answers 20 200 ''OK'' BodyStalls \<and>
   fetchPageContent demoExternals ''http://example.com/stalled'' 5000 = None \<and>
   getPageData demoExternals demoClock (demoRequest ''/api/stalled'') ''/stalled''
       uncachedOptions emptyCache =
     (None, \<lparr>cacheAfter = emptyCache, fetched = [''http://example.com/stalled'']\<rparr>) \<and>
   middleware demoExternals demoClock (normalizedConfig emptyConfig) (demoRequest ''/api/stalled'')
       emptyCache =
     (None, \<lparr>cacheAfter = emptyCache, fetched = [''http://example.com/stalled'']\<rparr>) \<and>
   origin demoExternals ''http://example.com/late'' =
     Answers 20 200 ''OK'' (BodyArrives 60000 demoMarkup) \<and>
   fetchPageContent demoExternals ''http://example.com/late'' 5000 = Some (Inr demoMarkup)"
proof -
  have o1: "origin demoExternals ''http://example.com/stalled'' = Answers 20 200 ''OK'' BodyStalls"
    by (simp add: demoExternals_def)
  have f1: "fetchPageContent demoExternals ''http://example.com/stalled'' 5000 = None"
    using fetch_body_untimed [OF o1, of 5000] by simp
  have g1: "getPageData demoExternals demoClock (demoRequest ''/api/stalled'') ''/stalled''
       uncachedOptions emptyCache =
     (None, \<lparr>cacheAfter = emptyCache, fetched = [''http://example.com/stalled'']\<rparr>)"
    using f1
    by (simp add: getPageData_miss [OF uncached_miss] url_of_demo Let_def)
       (simp add: uncachedOptions_def)
  have x: "extractPagePath ''/api/stalled'' ''/api'' = ''/stalled''"
    by (simp add: extractPagePath_def)
  have v: "isValidPath ''/stalled''"
    by (simp add: isValidPath_def dangerousChars_def)
  have opts: "\<lparr>opt_enableCache = False, opt_cacheDuration = 3600, opt_receiverUsername = None,
      opt_maxCacheSize = 1048576, opt_requestTimeout = 5000\<rparr> = uncachedOptions"
    by (simp add: uncachedOptions_def)
  have m1: "middleware demoExternals demoClock (normalizedConfig emptyConfig)
       (demoRequest ''/api/stalled'') emptyCache =
     (None, \<lparr>cacheAfter = emptyCache, fetched = [''http://example.com/stalled'']\<rparr>)"
    by (simp add: middleware_def normalized_empty demoRequest_def x v isPathExcluded_def opts)
       (simp add: g1 [unfolded demoRequest_def])
  have o2: "origin demoExternals ''http://example.com/late'' =
     Answers 20 200 ''OK'' (BodyArrives 60000 demoMarkup)"
    by (simp add: demoExternals_def)
  have f2: "fetchPageContent demoExternals ''http://example.com/late'' 5000 = Some (Inr demoMarkup)"
    using fetch_body_untimed [OF o2, of 5000] by simp
  from o1 f1 g1 m1 o2 f2 show ?thesis by (intro conjI)
qed

section \<open>Properties of the extractor\<close>

lemma tag_level:
  assumes "tag \<in> set headingTags"
  shows "parseInt (if drop 1 (map toUpperChar tag) = [] then ''1'' else drop 1 (map toUpperChar tag))
         = levelOfTag tag"
proof -
  from assms consider "tag = ''h1''" | "tag = ''h2''" | "tag = ''h3''" | "tag = ''h4''"
    | "tag = ''h5''" | "tag = ''h6''"
    by (auto simp: headingTags_def)
  then show ?thesis
    by cases
      (simp_all add: toUpperChar_def parseInt_def digitValue_def isWhiteSpace_def levelOfTag_def)
qed

lemma pushHeading_eq:
  assumes "tagOf e \<in> set headingTags"
  shows "pushHeading acc e =
     acc @ (if trim (nodeText e) \<noteq> [] then [\<lparr>h_level = levelOfTag (tagOf e), h_text = trim (nodeText e)\<rparr>]
            else [])"
  unfolding pushHeading_def propTagName_def Let_def tag_level [OF assms] by simp

lemma foldl_pushHeading:
  assumes "\<forall>e \<in> set sel. tagOf e \<in> set headingTags"
  shows "foldl pushHeading acc sel =
     acc @ map (\<lambda>e. \<lparr>h_level = levelOfTag (tagOf e), h_text = trim (nodeText e)\<rparr>)
             (filter (\<lambda>e. trim (nodeText e) \<noteq> []) sel)"
  using assms
proof (induction sel arbitrary: acc)
  case Nil
  then show ?case by simp
next
  case (Cons e sel)
  then have t: "tagOf e \<in> set headingTags" and r: "\<forall>e \<in> set sel. tagOf e \<in> set headingTags"
    by simp_all
  show ?case
    by (simp add: pushHeading_eq [OF t] Cons.IH [OF r])
qed

lemma selectTags_tag: "e \<in> set (selectTags tags doc) \<Longrightarrow> tagOf e \<in> set tags"
  by (simp add: selectTags_def)


lemma trim_Nil: "trim [] = []"
  by (simp add: trim_def)

lemma levelOfTag_range:
  "tag \<in> set headingTags \<Longrightarrow> \<exists>d. levelOfTag tag = Some d \<and> 1 \<le> d \<and> d \<le> 6"
  by (auto simp: headingTags_def levelOfTag_def)

text \<open>
  Claim C8, with the title trimmed as the code trims it. For the document \<open>doc\<close> of the
  markup, the extractor returns a page whose title, when the document has no more than
  one \<^verbatim>\<open>title\<close> element, is the trimmed text of that element (empty when there is none);
  whose first heading is the trimmed text of the first \<^verbatim>\<open>h1\<close> element (empty when there
  is none); whose meta description is the trimmed \<^verbatim>\<open>content\<close> attribute of the first
  \<^verbatim>\<open>meta\<close> element named \<^verbatim>\<open>description\<close> (absent when there is no such element or
  attribute); and whose headings are the \<^verbatim>\<open>h1\<close> to \<^verbatim>\<open>h6\<close> elements in document order,
  each with the digit of its tag as level, from 1 to 6, and its trimmed text, without
  the elements whose trimmed text is empty.
\<close>

theorem extractPageData_fields:
  assumes "cheerioLoad ext markup = Inr doc"
  shows "\<exists>r. extractPageData ext markup pagePath receiver now = Inr r \<and>
     (length (selectTags [''title''] doc) \<le> 1 \<longrightarrow>
        title r = (case selectTags [''title''] doc of [] \<Rightarrow> [] | e # _ \<Rightarrow> trim (nodeText e))) \<and>
     h1 r = (case selectTags [''h1''] doc of [] \<Rightarrow> [] | e # _ \<Rightarrow> trim (nodeText e)) \<and>
     metaDescription r =
       (case selectMetaDescription doc of
          [] \<Rightarrow> None
        | e # _ \<Rightarrow> map_option trim (map_of (attrsOf e) ''content'')) \<and>
     headings r =
       Some (map (\<lambda>e. \<lparr>h_level = levelOfTag (tagOf e), h_text = trim (nodeText e)\<rparr>)
               (filter (\<lambda>e. trim (nodeText e) \<noteq> []) (selectTags headingTags doc))) \<and>
     (\<forall>h \<in> set (the (headings r)). \<exists>d. h_level h = Some d \<and> 1 \<le> d \<and> d \<le> 6 \<and> h_text h \<noteq> [])"
proof -
  let ?hs = "map (\<lambda>e. \<lparr>h_level = levelOfTag (tagOf e), h_text = trim (nodeText e)\<rparr>)
               (filter (\<lambda>e. trim (nodeText e) \<noteq> []) (selectTags headingTags doc))"
  let ?r = "\<lparr>path = pagePath,
             timestamp = toISOString ext now,
             title = trim (selText (selectTags [''title''] doc)),
             h1 = trim (selText (selFirst (selectTags [''h1''] doc))),
             html = Some markup,
             receiverUsername = receiver,
             contentLength = Some (int (length markup)),
             extractedAt = Some now,
             statusCode = Some 200,
             headings = Some ?hs,
             metaDescription = map_option trim (selAttr ''content'' (selectMetaDescription doc))\<rparr>"
  have sel: "\<forall>e \<in> set (selectTags headingTags doc). tagOf e \<in> set headingTags"
    by (simp add: selectTags_tag)
  have fold: "foldl pushHeading [] (selectTags headingTags doc) = ?hs"
    using foldl_pushHeading [OF sel, of "[]"] by simp
  have r: "extractPageData ext markup pagePath receiver now = Inr ?r"
    using assms fold by (simp add: extractPageData_def headingTags_def)
  have t: "length (selectTags [''title''] doc) \<le> 1 \<longrightarrow>
        title ?r = (case selectTags [''title''] doc of [] \<Rightarrow> [] | e # _ \<Rightarrow> trim (nodeText e))"
  proof (cases "selectTags [''title''] doc")
    case Nil
    then show ?thesis by (simp add: selText_def trim_Nil)
  next
    case (Cons e es)
    then show ?thesis by (cases es) (simp_all add: selText_def)
  qed
  have h: "h1 ?r = (case selectTags [''h1''] doc of [] \<Rightarrow> [] | e # _ \<Rightarrow> trim (nodeText e))"
    by (cases "selectTags [''h1''] doc") (simp_all add: selText_def selFirst_def trim_Nil)
  have m: "metaDescription ?r =
       (case selectMetaDescription doc of
          [] \<Rightarrow> None
        | e # _ \<Rightarrow> map_option trim (map_of (attrsOf e) ''content''))"
    by (cases "selectMetaDescription doc") (simp_all add: selAttr_def)
  have hs: "headings ?r = Some ?hs" by simp
  have lv: "\<forall>h \<in> set (the (headings ?r)). \<exists>d. h_level h = Some d \<and> 1 \<le> d \<and> d \<le> 6 \<and> h_text h \<noteq> []"
  proof
    fix h assume "h \<in> set (the (headings ?r))"
    then obtain e where e: "e \<in> set (selectTags headingTags doc)" "trim (nodeText e) \<noteq> []"
      and h: "h = \<lparr>h_level = levelOfTag (tagOf e), h_text = trim (nodeText e)\<rparr>"
      by auto
    from e(1) have "tagOf e \<in> set headingTags" by (rule selectTags_tag)
    from levelOfTag_range [OF this] e(2) show "\<exists>d. h_level h = Some d \<and> 1 \<le> d \<and> d \<le> 6 \<and> h_text h \<noteq> []"
      by (auto simp: h)
  qed
  from r t h m hs lv show ?thesis by (intro exI [of _ ?r] conjI)
qed


lemma load_padded: "cheerioLoad pageExternals paddedMarkup = Inr paddedDoc"
  by (simp add: pageExternals_def)

lemma load_title: "cheerioLoad pageExternals titleMarkup = Inr titleDoc"
proof -
  have "titleMarkup \<noteq> paddedMarkup"
  proof
    assume "titleMarkup = paddedMarkup"
    then have "length titleMarkup = length paddedMarkup" by simp
    then show False by (simp add: titleMarkup_def paddedMarkup_def)
  qed
  then show ?thesis by (simp add: pageExternals_def)
qed

lemma load_rich: "cheerioLoad pageExternals richMarkup = Inr richDoc"
proof -
  have a: "richMarkup \<noteq> titleMarkup"
  proof
    assume "richMarkup = titleMarkup"
    then have "richMarkup ! 20 = titleMarkup ! 20" by simp
    then show False by (simp add: richMarkup_def titleMarkup_def)
  qed
  have b: "richMarkup \<noteq> paddedMarkup"
  proof
    assume "richMarkup = paddedMarkup"
    then have "richMarkup ! 20 = paddedMarkup ! 20" by simp
    then show False by (simp add: richMarkup_def paddedMarkup_def)
  qed
  from a b show ?thesis by (simp add: pageExternals_def)
qed

theorem extractPageData_fields_witness:
  "cheerioLoad pageExternals richMarkup = Inr richDoc \<and>
   length (selectTags [''title''] richDoc) \<le> 1 \<and>
   map_sum id title (extractPageData pageExternals richMarkup ''/rich'' None 0) = Inr ''Rich'' \<and>
   map_sum id h1 (extractPageData pageExternals richMarkup ''/rich'' None 0) = Inr ''Main'' \<and>
   map_sum id metaDescription (extractPageData pageExternals richMarkup ''/rich'' None 0) =
     Inr (Some ''A page'') \<and>
   map_sum id headings (extractPageData pageExternals richMarkup ''/rich'' None 0) =
     Inr (Some [\<lparr>h_level = Some 2, h_text = ''First''\<rparr>, \<lparr>h_level = Some 1, h_text = ''Main''\<rparr>,
                \<lparr>h_level = Some 1, h_text = ''Second''\<rparr>])"
proof -
  from extractPageData_fields [OF load_rich, of "''/rich''" None 0]
  obtain r where r: "extractPageData pageExternals richMarkup ''/rich'' None 0 = Inr r"
    and t: "length (selectTags [''title''] richDoc) \<le> 1 \<longrightarrow>
        title r = (case selectTags [''title''] richDoc of [] \<Rightarrow> [] | e # _ \<Rightarrow> trim (nodeText e))"
    and h: "h1 r = (case selectTags [''h1''] richDoc of [] \<Rightarrow> [] | e # _ \<Rightarrow> trim (nodeText e))"
    and m: "metaDescription r =
       (case selectMetaDescription richDoc of
          [] \<Rightarrow> None
        | e # _ \<Rightarrow> map_option trim (map_of (attrsOf e) ''content''))"
    and hs: "headings r =
       Some (map (\<lambda>e. \<lparr>h_level = levelOfTag (tagOf e), h_text = trim (nodeText e)\<rparr>)
               (filter (\<lambda>e. trim (nodeText e) \<noteq> []) (selectTags headingTags richDoc)))"
    by (elim exE conjE)
  have one: "length (selectTags [''title''] richDoc) \<le> 1"
    by (simp add: selectTags_def allElements_def richDoc_def)
  from t one have "title r =
      (case selectTags [''title''] richDoc of [] \<Rightarrow> [] | e # _ \<Rightarrow> trim (nodeText e))"
    by (rule mp)
  then have t': "title r = ''Rich''"
    by (simp add: selectTags_def allElements_def richDoc_def trim_def isWhiteSpace_def)
  have h': "h1 r = ''Main''"
    unfolding h by (simp add: selectTags_def allElements_def richDoc_def trim_def isWhiteSpace_def)
  have m': "metaDescription r = Some ''A page''"
    unfolding m
    by (simp add: selectMetaDescription_def allElements_def richDoc_def trim_def isWhiteSpace_def)
  have hs': "headings r =
     Some [\<lparr>h_level = Some 2, h_text = ''First''\<rparr>, \<lparr>h_level = Some 1, h_text = ''Main''\<rparr>,
           \<lparr>h_level = Some 1, h_text = ''Second''\<rparr>]"
    unfolding hs
    by (simp add: selectTags_def allElements_def richDoc_def trim_def isWhiteSpace_def
        headingTags_def levelOfTag_def)
  from load_rich one r t' h' m' hs' show ?thesis by simp
qed

text \<open>
  Claim C8 as stated fails for the title, which the code trims: on a page whose only
  \<^verbatim>\<open>title\<close> element has the text \<^verbatim>\<open> About \<close>, with a space on either side, the
  extracted title is \<^verbatim>\<open>About\<close>.
\<close>

theorem extractPageData_title_counterexample:
  "cheerioLoad pageExternals paddedMarkup = Inr paddedDoc \<and>
   length (selectTags [''title''] paddedDoc) = 1 \<and>
   nodeText (hd (selectTags [''title''] paddedDoc)) = '' About '' \<and>
   map_sum id title (extractPageData pageExternals paddedMarkup ''/p'' None 0) = Inr ''About''"
  by (simp add: load_padded extractPageData_def selectTags_def allElements_def selText_def
      paddedDoc_def trim_def isWhiteSpace_def)

text \<open>
  A document with a second \<^verbatim>\<open>title\<close> element is outside the statement above. The line
  \<^verbatim>\<open>$('title').text().trim()\<close> has no \<^verbatim>\<open>.first()\<close>, which the line for the \<^verbatim>\<open>h1\<close> has,
  and types.ts describes the title as extracted from the \<^verbatim>\<open><title>\<close> element: on a page
  whose head has the title \<^verbatim>\<open> About \<close> and whose body has an inline SVG image titled
  \<^verbatim>\<open>Logo\<close>, the extracted title is \<^verbatim>\<open>About Logo\<close>.
\<close>

lemma extractPageData_second_title:
  "cheerioLoad pageExternals titleMarkup = Inr titleDoc \<and>
   map (\<lambda>e. nodeText e) (selectTags [''title''] titleDoc) = ['' About '', ''Logo''] \<and>
   map_sum id title (extractPageData pageExternals titleMarkup ''/t'' None 0) = Inr ''About Logo''"
  by (simp add: load_title extractPageData_def selectTags_def allElements_def selText_def
      titleDoc_def trim_def isWhiteSpace_def)

end
